theory Spec2Isabelle
  imports Complex_Main "HOL-Library.AList"
begin

section \<open>Values of the host language\<close>

text \<open>
  A thrown JavaScript value is an \<open>Error\<close> carrying its message. A promise is described by
  when it settles (milliseconds after it was created) and with what: \<open>Never\<close> is a promise
  that stays pending for ever. An awaited promise gives an outcome; \<open>Pending\<close> is the
  \<open>await\<close> that never resumes.
\<close>

datatype error = Error string

datatype 'a promise = Never | SettlesAt nat "error + 'a"

datatype 'a outcome = Pending | Rejected error | Resolved 'a

fun await :: "'a promise \<Rightarrow> 'a outcome" where
  "await Never = Pending"
| "await (SettlesAt t (Inl e)) = Rejected e"
| "await (SettlesAt t (Inr v)) = Resolved v"

text \<open>
  \<open>revalidate: number | null | undefined\<close>. The numbers are whole seconds (the route data
  is written in the page as JSON). \<open>truthy\<close> is JavaScript's truthiness, as used by
  \<open>||\<close> and \<open>&&\<close>.
\<close>

datatype revalidate = Undefined | Null | Number int

fun truthy :: "revalidate \<Rightarrow> bool" where
  "truthy Undefined = False"
| "truthy Null = False"
| "truthy (Number n) = (n \<noteq> 0)"

text \<open>\<open>string | Buffer\<close>: an empty string is falsy, a Buffer is an object and always truthy.\<close>

datatype html = HtmlString string | HtmlBuffer string

fun truthy_html :: "html \<Rightarrow> bool" where
  "truthy_html (HtmlString s) = (s \<noteq> [])"
| "truthy_html (HtmlBuffer b) = True"

fun html_text :: "html \<Rightarrow> string" where
  "html_text (HtmlString s) = s"
| "html_text (HtmlBuffer b) = b"

section \<open>Timeout executor (utils/timeout.ts)\<close>

text \<open>
  The timer table of the runtime holds the handles of the timers that are scheduled.
  \<open>setTimeout\<close> returns a handle that is not in the table; \<open>clearTimeout\<close> removes one.
  Delays are whole milliseconds. The runtime honours a delay from 1 to 2147483647; a
  delay below 1 or above 2147483647 is run as 1 ms (\<open>timerDelay\<close>), and
  \<open>executeWithTimeout\<close> hands its \<open>timeoutMs\<close> to \<open>setTimeout\<close> as it is.
\<close>

type_synonym timers = "nat list"

definition setTimeout :: "timers \<Rightarrow> nat \<times> timers" where
  "setTimeout ts = (let h = Suc (fold max ts 0) in (h, ts @ [h]))"

definition clearTimeout :: "nat \<Rightarrow> timers \<Rightarrow> timers" where
  "clearTimeout h ts = removeAll h ts"

definition timerDelay :: "int \<Rightarrow> nat" where
  "timerDelay ms = (if ms < 1 \<or> 2147483647 < ms then 1 else nat ms)"

text \<open>
  \<open>Promise.race([p, q])\<close>: the promise that settles first decides; a promise that never
  settles never wins. When both settle at the same millisecond the one listed first is
  taken: the operation is listed first and was started before the timer was set.
\<close>

fun promise_race :: "'a promise \<Rightarrow> 'a promise \<Rightarrow> 'a promise" where
  "promise_race Never q = q"
| "promise_race (SettlesAt t r) Never = SettlesAt t r"
| "promise_race (SettlesAt t r) (SettlesAt u s) =
     (if t \<le> u then SettlesAt t r else SettlesAt u s)"

text \<open>
  \<open>executeWithTimeout(promise, timeoutMs, message)\<close>: the result is the behaviour of the
  returned promise and the timer table once it has settled. The \<open>finally\<close> block runs when
  the race settles, with a value or with an error.
\<close>

definition executeWithTimeout ::
  "'a promise \<Rightarrow> int \<Rightarrow> string \<Rightarrow> timers \<Rightarrow> 'a promise \<times> timers" where
  "executeWithTimeout promise timeoutMs message ts =
     (case setTimeout ts of (h, ts1) \<Rightarrow>
        let timeoutId = Some h;
            timeoutPromise = SettlesAt (timerDelay timeoutMs) (Inl (Error message))
        in case promise_race promise timeoutPromise of
             Never \<Rightarrow> (Never, ts1)
           | SettlesAt t r \<Rightarrow>
               (SettlesAt t r,
                case timeoutId of None \<Rightarrow> ts1 | Some i \<Rightarrow> clearTimeout i ts1))"

section \<open>Data model (models/cache-handler.ts and the handler configuration)\<close>

datatype token = TokenMissing | TokenNull | TokenString string

record request =
  req_url :: string
  req_headers :: "(string \<times> string) list"
  body_token :: token
  body_urlsToInvalidate :: "string list option"

record render_variant =
  variant_identifier :: string
  detectVariant :: "request \<Rightarrow> bool"
  simulateVariant :: "(request \<Rightarrow> request) option"

record variant_rebuild_item =
  item_url :: string
  item_cacheKey :: string
  item_reqSimulator :: "request \<Rightarrow> request"

record cache_isr_config =
  opt_revalidate :: revalidate
  opt_buildId :: "string option"

record cache_data =
  cd_html :: html
  options :: cache_isr_config
  createdAt :: int

text \<open>
  \<open>ISRHandlerConfig\<close> as the constructors leave it: \<open>cacheKeyGenerator\<close> is set (the
  default generator when none was configured), \<open>skipCachingOnHttpError\<close> is a boolean,
  \<open>buildId\<close> and \<open>invalidateSecretToken\<close> are a string or \<open>null\<close> (\<open>None\<close>).
\<close>

record isr_config =
  cacheKeyGenerator :: "string \<Rightarrow> string list option \<Rightarrow> render_variant option \<Rightarrow> string"
  allowedQueryParams :: "string list option"
  variants :: "render_variant list option"
  defaultRevalidate :: revalidate
  skipCachingOnHttpError :: bool
  buildId :: "string option"
  invalidateSecretToken :: "string option"
  backgroundRevalidation :: bool
  nonBlockingRender :: bool
  cacheTimeoutMs :: "int option"
  compressHtml :: "(string \<Rightarrow> string outcome) option"
  modifyGeneratedHtml :: "(request \<Rightarrow> string \<Rightarrow> revalidate \<Rightarrow> string) option"

record generated_result =
  gen_html :: html
  gen_errors :: "string list option"

datatype gen_mode = Regenerate | Generate

fun mode_name :: "gen_mode \<Rightarrow> string" where
  "mode_name Regenerate = ''regenerate''"
| "mode_name Generate = ''generate''"

section \<open>Collaborators and state\<close>

text \<open>
  The abstract \<open>CacheHandler\<close>: each operation returns its promise and the store it
  leaves. The store's type is the deployment's.
\<close>

record 's cache_handler =
  cache_add :: "string \<Rightarrow> html \<Rightarrow> cache_isr_config \<Rightarrow> 's \<Rightarrow> unit promise \<times> 's"
  cache_get :: "string \<Rightarrow> 's \<Rightarrow> cache_data promise \<times> 's"
  cache_has :: "string \<Rightarrow> 's \<Rightarrow> bool promise \<times> 's"

text \<open>
  The functions and constants this package imports and whose source is elsewhere:
  the renderer (\<open>renderUrl\<close>, as the outcome of awaiting it), \<open>getRouteISRDataFromHTML\<close>,
  \<open>defaultModifyGeneratedHtml\<close>, \<open>getVariant\<close>, \<open>stringToBuffer\<close>, the constant
  \<open>DEFAULT_CACHE_TIMEOUT\<close>, and the comment \<open>serveFromCache\<close> appends after
  \<open>modifyCachedHtml\<close> (it holds a measured time). The renderer and \<open>compressHtml\<close> may
  reject or stay pending; the synchronous callbacks are taken to return.
\<close>

record 's env =
  cache :: "'s cache_handler"
  renderUrl :: "request \<Rightarrow> string outcome"
  getRouteISRDataFromHTML :: "string \<Rightarrow> revalidate \<times> string list option"
  defaultModifyGeneratedHtml :: "request \<Rightarrow> string \<Rightarrow> revalidate \<Rightarrow> string"
  getVariant :: "request \<Rightarrow> render_variant list option \<Rightarrow> render_variant option"
  stringToBuffer :: "html \<Rightarrow> html"
  DEFAULT_CACHE_TIMEOUT :: int
  modifiedHtmlComment :: string

text \<open>
  What the handler does to the outside is recorded in order: the two \<open>logger.info\<close> lines
  that open a regeneration, calls of the renderer, of the store (\<open>CacheHas k b\<close>: the
  check of \<open>k\<close> gave \<open>b\<close>, which is \<open>false\<close> also when the check failed), of \<open>next()\<close> and of
  the response.
\<close>

datatype url_error = RenderErrors "string list" | Thrown error

datatype json_response =
    JsonError string
  | JsonSuccess "string list" "(string \<times> url_error) list" "string list"

datatype event =
    LoggerInfo string
  | RenderUrl string
  | CacheHas string bool
  | CacheGet string
  | CacheAdd string html cache_isr_config
  | Next
  | SetCompressHeader
  | Send html
  | Json json_response

text \<open>
  A call of \<open>generateWithCacheKey\<close> that is suspended at \<open>await renderUrl(...)\<close> is a
  task: the renderer has been called, the rest runs when it settles.
\<close>

record task =
  task_req :: request
  task_cacheKey :: string
  task_mode :: gen_mode

record 's state =
  urlsOnHold :: "string list"
  store :: 's
  timers :: timers
  trace :: "event list"
  running :: "task list"

definition emit :: "event \<Rightarrow> 's state \<Rightarrow> 's state" where
  "emit e st = st\<lparr>trace := trace st @ [e]\<rparr>"

definition awaitWithTimeout ::
  "'a promise \<Rightarrow> int \<Rightarrow> string \<Rightarrow> 's state \<Rightarrow> 'a outcome \<times> 's state" where
  "awaitWithTimeout p timeoutMs message st =
     (case executeWithTimeout p timeoutMs message (timers st) of
        (q, ts) \<Rightarrow> (await q, st\<lparr>timers := ts\<rparr>))"

definition cacheTimeout :: "'s env \<Rightarrow> isr_config \<Rightarrow> int" where
  "cacheTimeout env cfg =
     (case cacheTimeoutMs cfg of
        None \<Rightarrow> DEFAULT_CACHE_TIMEOUT env
      | Some ms \<Rightarrow> if ms = 0 then DEFAULT_CACHE_TIMEOUT env else ms)"

section \<open>Regeneration (cache-generation.ts)\<close>

definition getCacheKey ::
  "isr_config \<Rightarrow> string \<Rightarrow> string list option \<Rightarrow> render_variant option \<Rightarrow> string" where
  "getCacheKey cfg u allowed variant = cacheKeyGenerator cfg u allowed variant"

definition releaseHold :: "string \<Rightarrow> gen_mode \<Rightarrow> 's state \<Rightarrow> 's state" where
  "releaseHold k m st =
     (if m = Regenerate then st\<lparr>urlsOnHold := filter (\<lambda>x. x \<noteq> k) (urlsOnHold st)\<rparr>
      else st)"

text \<open>Lines 70-80: the in-flight check and the insertion, with no \<open>await\<close> in between.\<close>

definition gwck_guard :: "string \<Rightarrow> gen_mode \<Rightarrow> 's state \<Rightarrow> bool \<times> 's state" where
  "gwck_guard k m st =
     (if m = Regenerate then
        if k \<in> set (urlsOnHold st) then
          (False, emit (LoggerInfo ''Another generation is on-going for this url...'') st)
        else
          (True,
           (emit (LoggerInfo (''The url: '' @ k @ '' is being '' @ mode_name m @ ''.'')) st)
             \<lparr>urlsOnHold := urlsOnHold st @ [k]\<rparr>)
      else (True, st))"

text \<open>Lines 182-190: the \<open>catch\<close> of the function's \<open>try\<close>.\<close>

definition gwck_catch ::
  "string \<Rightarrow> gen_mode \<Rightarrow> error \<Rightarrow> 's state \<Rightarrow> generated_result option outcome \<times> 's state" where
  "gwck_catch k m e st = (Rejected e, releaseHold k m st)"

text \<open>
  Lines 141-173: \<open>addToCache\<close>. The store is called at once; what the call or its timeout
  gives is caught and only logged, whether \<open>nonBlockingRender\<close> leaves it unawaited or
  not.
\<close>

definition addToCache ::
  "'s env \<Rightarrow> isr_config \<Rightarrow> string \<Rightarrow> html \<Rightarrow> revalidate \<Rightarrow> 's state \<Rightarrow> 's state" where
  "addToCache env cfg k finalHtml rv st =
     (let entry = \<lparr>opt_revalidate = rv, opt_buildId = buildId cfg\<rparr>
      in case cache_add (cache env) k finalHtml entry (store st) of
           (p, s1) \<Rightarrow>
             snd (awaitWithTimeout p (cacheTimeout env cfg)
                    (''Timeout while adding to cache for cacheKey: '' @ k)
                    (emit (CacheAdd k finalHtml entry) (st\<lparr>store := s1\<rparr>))))"

text \<open>Line 129: \<open>revalidate = revalidate || this.isrConfig.defaultRevalidate\<close>.\<close>

definition resolvedRevalidate :: "isr_config \<Rightarrow> revalidate \<Rightarrow> revalidate" where
  "resolvedRevalidate cfg reported =
     (if truthy reported then reported else defaultRevalidate cfg)"

text \<open>Lines 113-181: from the error policy to the return.\<close>

definition gwck_decide ::
  "'s env \<Rightarrow> isr_config \<Rightarrow> string \<Rightarrow> gen_mode \<Rightarrow> revalidate \<Rightarrow> string list option \<Rightarrow> html \<Rightarrow>
     's state \<Rightarrow> generated_result option outcome \<times> 's state" where
  "gwck_decide env cfg k m initialRevalidate errs finalHtml st =
     (if (case errs of None \<Rightarrow> False | Some es \<Rightarrow> es \<noteq> []) \<and> skipCachingOnHttpError cfg then
        (Resolved (Some \<lparr>gen_html = finalHtml, gen_errors = errs\<rparr>), releaseHold k m st)
      else
        let rv = resolvedRevalidate cfg initialRevalidate
        in if rv = Number (- 1) then
             (Resolved (Some \<lparr>gen_html = finalHtml, gen_errors = None\<rparr>), st)
           else if rv = Null \<or> rv = Undefined then
             (Resolved (Some \<lparr>gen_html = finalHtml, gen_errors = None\<rparr>), st)
           else
             (Resolved (Some \<lparr>gen_html = finalHtml, gen_errors = None\<rparr>),
              releaseHold k m (addToCache env cfg k finalHtml rv st)))"

text \<open>
  Lines 103-112: the configured \<open>modifyGeneratedHtml\<close> or the default one, then the
  optional \<open>compressHtml\<close>, which is awaited.
\<close>

definition postProcess ::
  "'s env \<Rightarrow> isr_config \<Rightarrow> request \<Rightarrow> string \<Rightarrow> revalidate \<Rightarrow> html outcome" where
  "postProcess env cfg req h initialRevalidate =
     (let modified =
            (case modifyGeneratedHtml cfg of
               Some f \<Rightarrow> f req h initialRevalidate
             | None \<Rightarrow> defaultModifyGeneratedHtml env req h initialRevalidate)
      in case compressHtml cfg of
           None \<Rightarrow> Resolved (HtmlString modified)
         | Some compress \<Rightarrow>
             (case compress modified of
                Pending \<Rightarrow> Pending
              | Rejected e \<Rightarrow> Rejected e
              | Resolved b \<Rightarrow> Resolved (HtmlBuffer b)))"

text \<open>Lines 96-181: what follows \<open>await renderUrl(...)\<close>, given its outcome.\<close>

definition gwck_continue ::
  "'s env \<Rightarrow> isr_config \<Rightarrow> request \<Rightarrow> string \<Rightarrow> gen_mode \<Rightarrow> string outcome \<Rightarrow>
     's state \<Rightarrow> generated_result option outcome \<times> 's state" where
  "gwck_continue env cfg req k m rendered st =
     (case rendered of
        Pending \<Rightarrow> (Pending, st)
      | Rejected e \<Rightarrow> gwck_catch k m e st
      | Resolved h \<Rightarrow>
          (case getRouteISRDataFromHTML env h of
             (initialRevalidate, errs) \<Rightarrow>
               (case postProcess env cfg req h initialRevalidate of
                  Pending \<Rightarrow> (Pending, st)
                | Rejected e \<Rightarrow> gwck_catch k m e st
                | Resolved finalHtml \<Rightarrow>
                    gwck_decide env cfg k m initialRevalidate errs finalHtml st)))"

text \<open>Lines 81-95: the renderer is called, then awaited.\<close>

definition gwck_try ::
  "'s env \<Rightarrow> isr_config \<Rightarrow> request \<Rightarrow> string \<Rightarrow> gen_mode \<Rightarrow> 's state \<Rightarrow>
     generated_result option outcome \<times> 's state" where
  "gwck_try env cfg req k m st =
     gwck_continue env cfg req k m (renderUrl env req) (emit (RenderUrl (req_url req)) st)"

text \<open>
  \<open>generateWithCacheKey\<close>, run from call to return. \<open>Resolved None\<close> is the \<open>return;\<close> of
  line 75.
\<close>

definition generateWithCacheKey ::
  "'s env \<Rightarrow> isr_config \<Rightarrow> request \<Rightarrow> string \<Rightarrow> gen_mode \<Rightarrow> 's state \<Rightarrow>
     generated_result option outcome \<times> 's state" where
  "generateWithCacheKey env cfg req k m st =
     (case gwck_guard k m st of
        (False, st1) \<Rightarrow> (Resolved None, st1)
      | (True, st1) \<Rightarrow> gwck_try env cfg req k m st1)"

definition generate ::
  "'s env \<Rightarrow> isr_config \<Rightarrow> request \<Rightarrow> gen_mode \<Rightarrow> 's state \<Rightarrow>
     generated_result option outcome \<times> 's state" where
  "generate env cfg req m st =
     (let variant = getVariant env req (variants cfg);
          k = getCacheKey cfg (req_url req) (allowedQueryParams cfg) variant
      in generateWithCacheKey env cfg req k m st)"

text \<open>
  The same function in two halves, for calls that overlap: \<open>gwck_start\<close> runs a call up to
  its first \<open>await\<close> (lines 68-95) and leaves a task, \<open>gwck_finish\<close> resumes a task when
  the renderer has settled.
\<close>

definition gwck_start :: "request \<Rightarrow> string \<Rightarrow> gen_mode \<Rightarrow> 's state \<Rightarrow> 's state" where
  "gwck_start req k m st =
     (case gwck_guard k m st of
        (False, st1) \<Rightarrow> st1
      | (True, st1) \<Rightarrow>
          (emit (RenderUrl (req_url req)) st1)
            \<lparr>running := running st1 @ [\<lparr>task_req = req, task_cacheKey = k, task_mode = m\<rparr>]\<rparr>)"

definition gwck_finish ::
  "'s env \<Rightarrow> isr_config \<Rightarrow> task \<Rightarrow> 's state \<Rightarrow> generated_result option outcome \<times> 's state" where
  "gwck_finish env cfg t st =
     gwck_continue env cfg (task_req t) (task_cacheKey t) (task_mode t)
       (renderUrl env (task_req t)) st"

datatype action = Call request string gen_mode | Complete nat

text \<open>
  One step of the event loop: a new call runs to its first \<open>await\<close>, or the task at
  position \<open>i\<close> resumes and runs to its return. A task whose renderer never settles
  stays.
\<close>

fun perform :: "'s env \<Rightarrow> isr_config \<Rightarrow> action \<Rightarrow> 's state \<Rightarrow> 's state" where
  "perform env cfg (Call req k m) st = gwck_start req k m st"
| "perform env cfg (Complete i) st =
     (if i < length (running st) then
        (case gwck_finish env cfg (running st ! i) st of
           (Pending, st1) \<Rightarrow> st
         | (Rejected e, st1) \<Rightarrow> st1\<lparr>running := take i (running st1) @ drop (Suc i) (running st1)\<rparr>
         | (Resolved r, st1) \<Rightarrow> st1\<lparr>running := take i (running st1) @ drop (Suc i) (running st1)\<rparr>)
      else st)"

definition interleave :: "'s env \<Rightarrow> isr_config \<Rightarrow> action list \<Rightarrow> 's state \<Rightarrow> 's state" where
  "interleave env cfg acts st = fold (perform env cfg) acts st"

text \<open>The state a new \<open>CacheGeneration\<close> has: \<open>urlsOnHold: string[] = []\<close>.\<close>

definition initial :: "'s \<Rightarrow> 's state" where
  "initial s = \<lparr>urlsOnHold = [], store = s, timers = [], trace = [], running = []\<rparr>"

definition inFlight :: "string \<Rightarrow> 's state \<Rightarrow> nat" where
  "inFlight k st =
     length (filter (\<lambda>t. task_cacheKey t = k \<and> task_mode t = Regenerate) (running st))"

text \<open>The keys of the suspended calls in mode \<open>regenerate\<close>, and what ties them to the registry.\<close>

definition regenKeys :: "'s state \<Rightarrow> string list" where
  "regenKeys st = map task_cacheKey (filter (\<lambda>t. task_mode t = Regenerate) (running st))"

definition holdInvariant :: "'s state \<Rightarrow> bool" where
  "holdInvariant st = (distinct (regenKeys st) \<and> set (regenKeys st) \<subseteq> set (urlsOnHold st))"

fun is_render :: "event \<Rightarrow> bool" where
  "is_render (RenderUrl u) = True"
| "is_render e = False"

fun is_store_op :: "event \<Rightarrow> bool" where
  "is_store_op (CacheHas k b) = True"
| "is_store_op (CacheGet k) = True"
| "is_store_op (CacheAdd k h c) = True"
| "is_store_op e = False"

section \<open>The handler (isr-handler.ts)\<close>

subsection \<open>Invalidation\<close>

definition defaultVariant :: "request \<Rightarrow> request" where
  "defaultVariant req = req"

text \<open>
  \<open>getVariantUrlsToInvalidate\<close>: the two nested loops, each \<open>result.push\<close> appending to
  the result the object of line 170 (\<open>defaultItem\<close>) or of lines 172-182 (\<open>variantItem\<close>).
\<close>

definition defaultItem :: "string \<Rightarrow> variant_rebuild_item" where
  "defaultItem u = \<lparr>item_url = u, item_cacheKey = u, item_reqSimulator = defaultVariant\<rparr>"

definition variantItem :: "isr_config \<Rightarrow> string \<Rightarrow> render_variant \<Rightarrow> variant_rebuild_item" where
  "variantItem cfg u variant =
     \<lparr>item_url = u,
      item_cacheKey = getCacheKey cfg u (allowedQueryParams cfg) (Some variant),
      item_reqSimulator =
        (case simulateVariant variant of Some f \<Rightarrow> f | None \<Rightarrow> defaultVariant)\<rparr>"

definition pushVariant ::
  "isr_config \<Rightarrow> string \<Rightarrow> render_variant \<Rightarrow> variant_rebuild_item list \<Rightarrow> variant_rebuild_item list" where
  "pushVariant cfg u variant result = result @ [variantItem cfg u variant]"

definition pushUrl ::
  "isr_config \<Rightarrow> render_variant list \<Rightarrow> string \<Rightarrow> variant_rebuild_item list \<Rightarrow> variant_rebuild_item list" where
  "pushUrl cfg vs u result = fold (pushVariant cfg u) vs (result @ [defaultItem u])"

text \<open>Line 164: \<open>this.isrConfig.variants || []\<close>.\<close>

definition configuredVariants :: "isr_config \<Rightarrow> render_variant list" where
  "configuredVariants cfg = (case variants cfg of None \<Rightarrow> [] | Some l \<Rightarrow> l)"

definition getVariantUrlsToInvalidate :: "isr_config \<Rightarrow> string list \<Rightarrow> variant_rebuild_item list" where
  "getVariantUrlsToInvalidate cfg urlsToInvalidate =
     fold (pushUrl cfg (configuredVariants cfg)) urlsToInvalidate []"

text \<open>Lines 96-106: the existence check, bounded by the timeout; a failure counts as absent.\<close>

definition cacheHas :: "'s env \<Rightarrow> isr_config \<Rightarrow> string \<Rightarrow> 's state \<Rightarrow> bool \<times> 's state" where
  "cacheHas env cfg k st =
     (case cache_has (cache env) k (store st) of
        (p, s1) \<Rightarrow>
          (case awaitWithTimeout p (cacheTimeout env cfg)
                  (''Timeout while checking cache for cacheKey: '' @ k) (st\<lparr>store := s1\<rparr>) of
             (r, st1) \<Rightarrow>
               let urlExists = (case r of Resolved b \<Rightarrow> b | Rejected e \<Rightarrow> False | Pending \<Rightarrow> False)
               in (urlExists, emit (CacheHas k urlExists) st1)))"

text \<open>
  Lines 92-129: the loop over the rebuild items. \<open>req.url = url\<close> changes the request for
  the iterations that follow. The request simulators are taken to return a request
  without changing the one they are given.
\<close>

fun invalidateLoop ::
  "'s env \<Rightarrow> isr_config \<Rightarrow> variant_rebuild_item list \<Rightarrow> request \<Rightarrow> string list \<Rightarrow>
     (string \<times> url_error) list \<Rightarrow> 's state \<Rightarrow>
     (string list \<times> (string \<times> url_error) list) outcome \<times> 's state" where
  "invalidateLoop env cfg [] req notInCache urlWithErrors st =
     (Resolved (notInCache, urlWithErrors), st)"
| "invalidateLoop env cfg (variantUrl # rest) req notInCache urlWithErrors st =
     (case cacheHas env cfg (item_cacheKey variantUrl) st of
        (urlExists, st1) \<Rightarrow>
          if \<not> urlExists then
            invalidateLoop env cfg rest req (notInCache @ [item_cacheKey variantUrl]) urlWithErrors st1
          else
            let req1 = req\<lparr>req_url := item_url variantUrl\<rparr>
            in case generateWithCacheKey env cfg (item_reqSimulator variantUrl req1)
                      (item_cacheKey variantUrl) Generate st1 of
                 (Pending, st2) \<Rightarrow> (Pending, st2)
               | (Rejected e, st2) \<Rightarrow>
                   invalidateLoop env cfg rest req1 notInCache
                     (AList.update (item_cacheKey variantUrl) (Thrown e) urlWithErrors) st2
               | (Resolved result, st2) \<Rightarrow>
                   invalidateLoop env cfg rest req1 notInCache
                     (case result of
                        None \<Rightarrow> urlWithErrors
                      | Some g \<Rightarrow>
                          (case gen_errors g of
                             None \<Rightarrow> urlWithErrors
                           | Some es \<Rightarrow>
                               if es \<noteq> [] then
                                 AList.update (item_cacheKey variantUrl) (RenderErrors es) urlWithErrors
                               else urlWithErrors))
                     st2)"

text \<open>\<open>token !== this.isrConfig.invalidateSecretToken\<close>, the secret being a string or \<open>null\<close>.\<close>

fun tokenDiffers :: "token \<Rightarrow> string option \<Rightarrow> bool" where
  "tokenDiffers (TokenString t) (Some s) = (t \<noteq> s)"
| "tokenDiffers TokenNull None = False"
| "tokenDiffers t s = True"

definition invalidate ::
  "'s env \<Rightarrow> isr_config \<Rightarrow> request \<Rightarrow> 's state \<Rightarrow> unit outcome \<times> 's state" where
  "invalidate env cfg req st =
     (if tokenDiffers (body_token req) (invalidateSecretToken cfg) then
        (Resolved (), emit (Json (JsonError ''Your secret token is wrong!!!'')) st)
      else
        (case body_urlsToInvalidate req of
           None \<Rightarrow>
             (Resolved (),
              emit (Json (JsonError ''Please add `urlsToInvalidate` in the payload!'')) st)
         | Some urlsToInvalidate \<Rightarrow>
             if urlsToInvalidate = [] then
               (Resolved (),
                emit (Json (JsonError ''Please add `urlsToInvalidate` in the payload!'')) st)
             else
               let variantUrlsToInvalidate = getVariantUrlsToInvalidate cfg urlsToInvalidate
               in case invalidateLoop env cfg variantUrlsToInvalidate req [] [] st of
                    (Pending, st1) \<Rightarrow> (Pending, st1)
                  | (Rejected e, st1) \<Rightarrow> (Rejected e, st1)
                  | (Resolved (notInCache, urlWithErrors), st1) \<Rightarrow>
                      let invalidatedUrls =
                            filter
                              (\<lambda>k. k \<notin> set notInCache \<and> map_of urlWithErrors k = None)
                              (map item_cacheKey variantUrlsToInvalidate)
                      in (Resolved (),
                          emit (Json (JsonSuccess notInCache urlWithErrors invalidatedUrls)) st1)))"

subsection \<open>Serving\<close>

record serve_from_cache_config =
  modifyCachedHtml :: "(request \<Rightarrow> string \<Rightarrow> string) option"

text \<open>Lines 206-221: the lookup, bounded by the timeout.\<close>

definition cacheGet ::
  "'s env \<Rightarrow> isr_config \<Rightarrow> string \<Rightarrow> 's state \<Rightarrow> cache_data outcome \<times> 's state" where
  "cacheGet env cfg k st =
     (case cache_get (cache env) k (store st) of
        (p, s1) \<Rightarrow>
          awaitWithTimeout p (cacheTimeout env cfg)
            (''Failed to get cache data for cacheKey: '' @ k)
            (emit (CacheGet k) (st\<lparr>store := s1\<rparr>)))"

text \<open>Lines 242-246: the content held before the freshness check.\<close>

definition storedHtml :: "'s env \<Rightarrow> isr_config \<Rightarrow> cache_data \<Rightarrow> html" where
  "storedHtml env cfg cacheData =
     (if compressHtml cfg \<noteq> None then stringToBuffer env (cd_html cacheData)
      else cd_html cacheData)"

text \<open>\<open>(Date.now() - createdAt) / 1000\<close>, in seconds.\<close>

definition lastCacheDateDiff :: "int \<Rightarrow> int \<Rightarrow> rat" where
  "lastCacheDateDiff now created = of_int (now - created) / 1000"

text \<open>Lines 293-310: the cached-HTML callback or the compression header, then \<open>res.send\<close>.\<close>

definition sendHtml ::
  "'s env \<Rightarrow> isr_config \<Rightarrow> request \<Rightarrow> serve_from_cache_config \<Rightarrow> html \<Rightarrow> 's state \<Rightarrow>
     unit outcome \<times> 's state" where
  "sendHtml env cfg req config finalHtml st =
     (if compressHtml cfg = None then
        (case modifyCachedHtml config of
           Some f \<Rightarrow>
             (Resolved (),
              emit (Send (HtmlString (f req (html_text finalHtml) @ modifiedHtmlComment env))) st)
         | None \<Rightarrow> (Resolved (), emit (Send finalHtml) st))
      else (Resolved (), emit (Send finalHtml) (emit SetCompressHeader st)))"

text \<open>
  \<open>serveFromCache\<close> at the time \<open>now\<close> (\<open>Date.now()\<close>). With background revalidation the
  regeneration is started and left running; without it the call is awaited, and the
  \<open>catch\<close> of lines 286-289 calls \<open>next()\<close> and goes on to line 293.
\<close>

definition serveFromCache ::
  "'s env \<Rightarrow> isr_config \<Rightarrow> int \<Rightarrow> request \<Rightarrow> serve_from_cache_config \<Rightarrow> 's state \<Rightarrow>
     unit outcome \<times> 's state" where
  "serveFromCache env cfg now req config st =
     (let variant = getVariant env req (variants cfg);
          k = getCacheKey cfg (req_url req) (allowedQueryParams cfg) variant
      in case cacheGet env cfg k st of
           (Pending, st1) \<Rightarrow> (Pending, st1)
         | (Rejected e, st1) \<Rightarrow> (Resolved (), emit Next st1)
         | (Resolved cacheData, st1) \<Rightarrow>
             let cacheConfig = options cacheData;
                 cacheHasBuildId = (opt_buildId cacheConfig \<noteq> None)
             in if cacheHasBuildId \<and> opt_buildId cacheConfig \<noteq> buildId cfg then
                  (Resolved (), emit Next st1)
                else
                  let finalHtml = storedHtml env cfg cacheData
                  in case opt_revalidate cacheConfig of
                       Number n \<Rightarrow>
                         if n \<noteq> 0 \<and> n > 0 then
                           if lastCacheDateDiff now (createdAt cacheData) > of_int n then
                             if backgroundRevalidation cfg then
                               sendHtml env cfg req config finalHtml
                                 (gwck_start req k Regenerate st1)
                             else
                               (case generateWithCacheKey env cfg req k Regenerate st1 of
                                  (Pending, st2) \<Rightarrow> (Pending, st2)
                                | (Rejected e, st2) \<Rightarrow>
                                    sendHtml env cfg req config finalHtml (emit Next st2)
                                | (Resolved result, st2) \<Rightarrow>
                                    sendHtml env cfg req config
                                      (case result of
                                         None \<Rightarrow> finalHtml
                                       | Some g \<Rightarrow>
                                           if truthy_html (gen_html g) then gen_html g
                                           else finalHtml)
                                      st2)
                           else sendHtml env cfg req config finalHtml st1
                         else sendHtml env cfg req config finalHtml st1
                     | Null \<Rightarrow> sendHtml env cfg req config finalHtml st1
                     | Undefined \<Rightarrow> sendHtml env cfg req config finalHtml st1)"

text \<open>Lines 339-356 of \<open>render\<close>: generate, send the page or call \<open>next()\<close>.\<close>

definition render ::
  "'s env \<Rightarrow> isr_config \<Rightarrow> request \<Rightarrow> 's state \<Rightarrow> unit outcome \<times> 's state" where
  "render env cfg req st =
     (case generate env cfg req Generate st of
        (Pending, st1) \<Rightarrow> (Pending, st1)
      | (Rejected e, st1) \<Rightarrow> (Resolved (), emit Next st1)
      | (Resolved result, st1) \<Rightarrow>
          (case result of
             None \<Rightarrow> (Resolved (), emit Next st1)
           | Some g \<Rightarrow>
               if truthy_html (gen_html g) then
                 (Resolved (),
                  emit (Send (gen_html g))
                    (if compressHtml cfg \<noteq> None then emit SetCompressHeader st1 else st1))
               else (Resolved (), emit Next st1)))"

section \<open>Reading a trace\<close>

text \<open>The events a run added to the trace it started from.\<close>

definition added :: "'s state \<Rightarrow> 's state \<Rightarrow> event list" where
  "added st st' = drop (length (trace st)) (trace st')"

fun hasChecks :: "event list \<Rightarrow> (string \<times> bool) list" where
  "hasChecks [] = []"
| "hasChecks (CacheHas k b # es) = (k, b) # hasChecks es"
| "hasChecks (e # es) = hasChecks es"


section \<open>A sample deployment\<close>

text \<open>
  An in-memory store, a renderer with a fixed outcome and a configuration with the
  defaults of the constructors, used to run the handler on concrete requests.
\<close>

type_synonym mem_store = "(string \<times> cache_data) list"

definition memCache :: "mem_store cache_handler" where
  "memCache =
     \<lparr>cache_add = (\<lambda>k h c s.
        (SettlesAt 1 (Inr ()), AList.update k \<lparr>cd_html = h, options = c, createdAt = 0\<rparr> s)),
      cache_get = (\<lambda>k s.
        (case map_of s k of
           Some d \<Rightarrow> SettlesAt 1 (Inr d)
         | None \<Rightarrow> SettlesAt 1 (Inl (Error ''This url does not exist in cache!'')), s)),
      cache_has = (\<lambda>k s. (SettlesAt 1 (Inr (map_of s k \<noteq> None)), s))\<rparr>"

definition sampleEnv :: "string outcome \<Rightarrow> revalidate \<Rightarrow> mem_store env" where
  "sampleEnv rendered reported =
     \<lparr>cache = memCache,
      renderUrl = (\<lambda>req. rendered),
      getRouteISRDataFromHTML = (\<lambda>h. (reported, None)),
      defaultModifyGeneratedHtml = (\<lambda>req h rv. h),
      getVariant = (\<lambda>req vs. case vs of None \<Rightarrow> None | Some l \<Rightarrow> find (\<lambda>v. detectVariant v req) l),
      stringToBuffer = (\<lambda>h. HtmlBuffer (html_text h)),
      DEFAULT_CACHE_TIMEOUT = 5000,
      modifiedHtmlComment = ''<!-- modified -->''\<rparr>"

definition sampleConfig :: isr_config where
  "sampleConfig =
     \<lparr>cacheKeyGenerator = (\<lambda>u allowed variant.
        case variant of
          None \<Rightarrow> u
        | Some v \<Rightarrow> u @ ''<variantId:'' @ variant_identifier v @ ''>''),
      allowedQueryParams = None,
      variants = None,
      defaultRevalidate = Undefined,
      skipCachingOnHttpError = True,
      buildId = None,
      invalidateSecretToken = Some ''secret'',
      backgroundRevalidation = False,
      nonBlockingRender = False,
      cacheTimeoutMs = None,
      compressHtml = None,
      modifyGeneratedHtml = None\<rparr>"

definition sampleRequest :: "string \<Rightarrow> request" where
  "sampleRequest u =
     \<lparr>req_url = u, req_headers = [], body_token = TokenMissing, body_urlsToInvalidate = None\<rparr>"

definition sampleEntry :: "string \<Rightarrow> int \<Rightarrow> int \<Rightarrow> cache_data" where
  "sampleEntry h n created =
     \<lparr>cd_html = HtmlString h,
      options = \<lparr>opt_revalidate = Number n, opt_buildId = None\<rparr>,
      createdAt = created\<rparr>"

text \<open>Two variants, and the body of an invalidation request.\<close>

definition sampleVariants :: "render_variant list" where
  "sampleVariants =
     [\<lparr>variant_identifier = ''mobile'',
       detectVariant = (\<lambda>req. (''device'', ''mobile'') \<in> set (req_headers req)),
       simulateVariant = None\<rparr>,
      \<lparr>variant_identifier = ''member'',
       detectVariant = (\<lambda>req. (''cookie'', ''member=1'') \<in> set (req_headers req)),
       simulateVariant = Some (\<lambda>req. req\<lparr>req_headers := [(''cookie'', ''member=1'')]\<rparr>)\<rparr>]"

definition invalidationRequest :: "token \<Rightarrow> string list option \<Rightarrow> request" where
  "invalidationRequest t urls =
     \<lparr>req_url = ''/api/invalidate'', req_headers = [], body_token = t,
      body_urlsToInvalidate = urls\<rparr>"

text \<open>The same configuration with a cache key generator of the deployment's own.\<close>

definition prefixConfig :: isr_config where
  "prefixConfig = sampleConfig\<lparr>cacheKeyGenerator := (\<lambda>u allowed variant. ''page:'' @ u)\<rparr>"

lemmas gwck_defs =
  generateWithCacheKey_def gwck_guard_def gwck_try_def gwck_continue_def gwck_catch_def
  postProcess_def gwck_decide_def resolvedRevalidate_def addToCache_def releaseHold_def
  cacheTimeout_def timerDelay_def emit_def

lemmas sample_defs =
  sampleEnv_def sampleConfig_def sampleRequest_def sampleEntry_def memCache_def initial_def
  prefixConfig_def sampleVariants_def invalidationRequest_def

section \<open>The timeout executor\<close>

lemma fold_max_upper: "x \<in> set ts \<Longrightarrow> x \<le> fold max ts (a::nat)"
proof (induction ts arbitrary: a)
  case Nil
  then show ?case by simp
next
  case (Cons y ys)
  have mono: "\<And>b. b \<le> fold max ys (b::nat)"
  proof -
    fix b :: nat
    show "b \<le> fold max ys b"
      by (induction ys arbitrary: b) (auto intro: order_trans[OF max.cobounded2])
  qed
  show ?case
  proof (cases "x = y")
    case True
    have "y \<le> max y a" by simp
    also have "\<dots> \<le> fold max ys (max y a)" by (rule mono)
    finally show ?thesis using True by simp
  next
    case False
    with Cons.prems have "x \<in> set ys" by simp
    then show ?thesis using Cons.IH by simp
  qed
qed

lemma setTimeout_fresh: "fst (setTimeout ts) \<notin> set ts"
proof
  assume "fst (setTimeout ts) \<in> set ts"
  then have "Suc (fold max ts 0) \<le> fold max ts 0"
    using fold_max_upper[of "Suc (fold max ts 0)" ts 0] by (simp add: setTimeout_def Let_def)
  then show False by simp
qed

lemma clear_after_set: "clearTimeout (fst (setTimeout ts)) (snd (setTimeout ts)) = ts"
  using setTimeout_fresh[of ts] by (simp add: setTimeout_def clearTimeout_def Let_def)

lemma race_with_timer: "promise_race p (SettlesAt ms r) \<noteq> Never"
  by (cases p) auto

lemma executeWithTimeout_fst:
  "fst (executeWithTimeout p ms msg ts) =
     promise_race p (SettlesAt (timerDelay ms) (Inl (Error msg)))"
  by (auto simp: executeWithTimeout_def Let_def split: prod.splits promise.splits)

lemma executeWithTimeout_snd: "snd (executeWithTimeout p ms msg ts) = ts"
  using clear_after_set[of ts] race_with_timer[of p "timerDelay ms" "Inl (Error msg)"]
  by (auto simp: executeWithTimeout_def Let_def split: prod.splits promise.splits)

lemma awaitWithTimeout_eq:
  "awaitWithTimeout p ms msg st =
     (await (promise_race p (SettlesAt (timerDelay ms) (Inl (Error msg)))), st)"
  using executeWithTimeout_fst[of p ms msg "timers st"] executeWithTimeout_snd[of p ms msg "timers st"]
  by (auto simp: awaitWithTimeout_def split: prod.splits)

lemma awaitWithTimeout_not_Pending: "fst (awaitWithTimeout p ms msg st) \<noteq> Pending"
proof -
  obtain t r where "promise_race p (SettlesAt (timerDelay ms) (Inl (Error msg))) = SettlesAt t r"
    using race_with_timer[of p "timerDelay ms" "Inl (Error msg)"]
    by (cases "promise_race p (SettlesAt (timerDelay ms) (Inl (Error msg)))") auto
  then show ?thesis by (cases r) (simp_all add: awaitWithTimeout_eq)
qed

text \<open>
  C9, as the code has it. For a \<open>timeoutMs\<close> from 1 to 2147483647:
  \<open>executeWithTimeout(promise, timeoutMs, message)\<close> rejects at \<open>timeoutMs\<close> with an error
  carrying exactly \<open>message\<close> when the promise never settles or settles after
  \<open>timeoutMs\<close>, and settles as the promise does (with its value, or with its error) when
  the promise settles no later than \<open>timeoutMs\<close>. For every \<open>timeoutMs\<close>: the call settles,
  no later than the delay the runtime gives the timer; the timer it scheduled has been
  cleared on every one of these paths, the timer table being what it was before the call;
  and a \<open>timeoutMs\<close> outside 1 to 2147483647 behaves as a \<open>timeoutMs\<close> of 1.
\<close>

theorem executeWithTimeout_contract:
  "(1 \<le> timeoutMs \<and> timeoutMs \<le> 2147483647 \<longrightarrow>
      (p = Never \<or> (\<exists>t r. p = SettlesAt t r \<and> nat timeoutMs < t) \<longrightarrow>
         fst (executeWithTimeout p timeoutMs message ts) =
           SettlesAt (nat timeoutMs) (Inl (Error message)) \<and>
         await (fst (executeWithTimeout p timeoutMs message ts)) = Rejected (Error message)) \<and>
      (\<forall>t r. p = SettlesAt t r \<and> t \<le> nat timeoutMs \<longrightarrow>
         fst (executeWithTimeout p timeoutMs message ts) = SettlesAt t r) \<and>
      (\<forall>t v. p = SettlesAt t (Inr v) \<and> t \<le> nat timeoutMs \<longrightarrow>
         await (fst (executeWithTimeout p timeoutMs message ts)) = Resolved v) \<and>
      (\<forall>t e. p = SettlesAt t (Inl e) \<and> t \<le> nat timeoutMs \<longrightarrow>
         await (fst (executeWithTimeout p timeoutMs message ts)) = Rejected e))
   \<and> (\<exists>t r. fst (executeWithTimeout p timeoutMs message ts) = SettlesAt t r \<and>
         t \<le> timerDelay timeoutMs)
   \<and> fst (setTimeout ts) \<notin> set (snd (executeWithTimeout p timeoutMs message ts))
   \<and> snd (executeWithTimeout p timeoutMs message ts) = ts
   \<and> (timeoutMs < 1 \<or> 2147483647 < timeoutMs \<longrightarrow>
        executeWithTimeout p timeoutMs message ts = executeWithTimeout p 1 message ts)"
proof -
  have range: "timerDelay timeoutMs = nat timeoutMs"
    if "1 \<le> timeoutMs \<and> timeoutMs \<le> 2147483647"
    using that by (simp add: timerDelay_def)
  have bounded: "\<exists>t r. promise_race p (SettlesAt d (Inl (Error message))) = SettlesAt t r \<and> t \<le> d"
    for d
    by (cases p) auto
  have clamp: "executeWithTimeout p timeoutMs message ts = executeWithTimeout p 1 message ts"
    if "timeoutMs < 1 \<or> 2147483647 < timeoutMs"
    using that by (auto simp: executeWithTimeout_def timerDelay_def)
  have inrange: "(p = Never \<or> (\<exists>t r. p = SettlesAt t r \<and> d < t) \<longrightarrow>
         promise_race p (SettlesAt d (Inl (Error message))) = SettlesAt d (Inl (Error message)) \<and>
         await (promise_race p (SettlesAt d (Inl (Error message)))) = Rejected (Error message)) \<and>
      (\<forall>t r. p = SettlesAt t r \<and> t \<le> d \<longrightarrow>
         promise_race p (SettlesAt d (Inl (Error message))) = SettlesAt t r) \<and>
      (\<forall>t v. p = SettlesAt t (Inr v) \<and> t \<le> d \<longrightarrow>
         await (promise_race p (SettlesAt d (Inl (Error message)))) = Resolved v) \<and>
      (\<forall>t e. p = SettlesAt t (Inl e) \<and> t \<le> d \<longrightarrow>
         await (promise_race p (SettlesAt d (Inl (Error message)))) = Rejected e)" for d
    by auto
  show ?thesis
    using setTimeout_fresh[of ts] range bounded[of "timerDelay timeoutMs"] clamp
      inrange[of "nat timeoutMs"]
    by (simp add: executeWithTimeout_fst executeWithTimeout_snd)
qed

text \<open>
  The cases of the package's tests, with a timeout of 1000 ms and a timer already
  scheduled: a renderer that never answers, promises that settle after 500 ms, after
  2000 ms and at 1000 ms; and a timeout of 0, which is run as 1 ms.
\<close>

theorem executeWithTimeout_contract_witness:
  "await (fst (executeWithTimeout (Never :: string promise) 1000 ''Timeout error'' [7])) =
     Rejected (Error ''Timeout error'')
   \<and> snd (executeWithTimeout (Never :: string promise) 1000 ''Timeout error'' [7]) = [7]
   \<and> await (fst (executeWithTimeout (SettlesAt 500 (Inr ''success'')) 1000 ''Timeout error'' [7])) =
       Resolved ''success''
   \<and> snd (executeWithTimeout (SettlesAt 500 (Inr ''success'')) 1000 ''Timeout error'' [7]) = [7]
   \<and> await (fst (executeWithTimeout (SettlesAt 2000 (Inr ''late'')) 1000 ''Timeout error'' [7])) =
       Rejected (Error ''Timeout error'')
   \<and> await (fst (executeWithTimeout (SettlesAt 1000 (Inr ''in time'')) 1000 ''Timeout error'' [7])) =
       Resolved ''in time''
   \<and> await (fst (executeWithTimeout (SettlesAt 500 (Inl (Error ''store down'')) :: string promise)
         1000 ''Timeout error'' [7])) = Rejected (Error ''store down'')
   \<and> executeWithTimeout (Never :: string promise) 0 ''Timeout error'' [7] =
       executeWithTimeout (Never :: string promise) 1 ''Timeout error'' [7]"
  using executeWithTimeout_contract[of 1000 "Never :: string promise" "''Timeout error''" "[7]"]
    executeWithTimeout_contract[of 1000 "SettlesAt 500 (Inr ''success'')" "''Timeout error''" "[7]"]
    executeWithTimeout_contract[of 1000 "SettlesAt 2000 (Inr ''late'')" "''Timeout error''" "[7]"]
    executeWithTimeout_contract[of 1000 "SettlesAt 1000 (Inr ''in time'')" "''Timeout error''" "[7]"]
    executeWithTimeout_contract[of 1000 "SettlesAt 500 (Inl (Error ''store down'')) :: string promise"
      "''Timeout error''" "[7]"]
    executeWithTimeout_contract[of 0 "Never :: string promise" "''Timeout error''" "[7]"]
  by simp

text \<open>
  Above 2147483647 the timeout is not the deadline: with a \<open>timeoutMs\<close> of 2147483648 a
  promise that settles after 500 ms, well within \<open>timeoutMs\<close>, is not awaited; the call
  rejects after 1 ms with the timeout's message.
\<close>

theorem executeWithTimeout_large_timeout_counterexample:
  "(500 :: int) < 2147483648
   \<and> fst (executeWithTimeout (SettlesAt 500 (Inr ''success'')) 2147483648 ''Timeout error'' []) =
       SettlesAt 1 (Inl (Error ''Timeout error''))
   \<and> await (fst (executeWithTimeout (SettlesAt 500 (Inr ''success'')) 2147483648 ''Timeout error'' []))
       \<noteq> Resolved ''success''"
  by (simp add: executeWithTimeout_fst timerDelay_def)

section \<open>What a regeneration changes\<close>

lemma addToCache_fields:
  "urlsOnHold (addToCache env cfg k h rv st) = urlsOnHold st"
  "running (addToCache env cfg k h rv st) = running st"
  "timers (addToCache env cfg k h rv st) = timers st"
  "trace (addToCache env cfg k h rv st) =
     trace st @ [CacheAdd k h \<lparr>opt_revalidate = rv, opt_buildId = buildId cfg\<rparr>]"
  by (simp_all add: addToCache_def awaitWithTimeout_eq emit_def Let_def split: prod.splits)

lemma releaseHold_fields:
  "trace (releaseHold k m st) = trace st"
  "running (releaseHold k m st) = running st"
  "store (releaseHold k m st) = store st"
  "timers (releaseHold k m st) = timers st"
  "urlsOnHold (releaseHold k m st) =
     (if m = Regenerate then filter (\<lambda>x. x \<noteq> k) (urlsOnHold st) else urlsOnHold st)"
  by (simp_all add: releaseHold_def)

lemma emit_fields:
  "trace (emit e st) = trace st @ [e]"
  "running (emit e st) = running st"
  "store (emit e st) = store st"
  "timers (emit e st) = timers st"
  "urlsOnHold (emit e st) = urlsOnHold st"
  by (simp_all add: emit_def)


lemma gwck_decide_running: "running (snd (gwck_decide env cfg k m rv errs h st)) = running st"
  by (simp add: gwck_decide_def Let_def releaseHold_fields addToCache_fields)

lemma gwck_decide_hold:
  "urlsOnHold (snd (gwck_decide env cfg k m rv errs h st)) = urlsOnHold st \<or>
   (m = Regenerate \<and>
    urlsOnHold (snd (gwck_decide env cfg k m rv errs h st)) = filter (\<lambda>x. x \<noteq> k) (urlsOnHold st))"
  by (simp add: gwck_decide_def Let_def releaseHold_fields addToCache_fields)

lemma gwck_decide_trace:
  "trace (snd (gwck_decide env cfg k m rv errs h st)) = trace st \<or>
   (trace (snd (gwck_decide env cfg k m rv errs h st)) =
      trace st @ [CacheAdd k h \<lparr>opt_revalidate = resolvedRevalidate cfg rv,
                               opt_buildId = buildId cfg\<rparr>] \<and>
    resolvedRevalidate cfg rv \<notin> {Number (- 1), Null, Undefined})"
  by (simp add: gwck_decide_def Let_def releaseHold_fields addToCache_fields)

lemma gwck_continue_running: "running (snd (gwck_continue env cfg req k m r st)) = running st"
  by (simp add: gwck_continue_def gwck_catch_def releaseHold_fields gwck_decide_running
      split: outcome.splits prod.splits)

lemma gwck_continue_hold:
  "urlsOnHold (snd (gwck_continue env cfg req k m r st)) = urlsOnHold st \<or>
   (m = Regenerate \<and>
    urlsOnHold (snd (gwck_continue env cfg req k m r st)) = filter (\<lambda>x. x \<noteq> k) (urlsOnHold st))"
  using gwck_decide_hold[of env cfg k m _ _ _ st]
  by (auto simp add: gwck_continue_def gwck_catch_def releaseHold_fields
      split: outcome.splits prod.splits)


lemma gwck_start_invariant:
  assumes "holdInvariant st"
  shows "holdInvariant (gwck_start req k m st)"
proof (cases m)
  case Generate
  then show ?thesis using assms
    by (simp add: gwck_start_def gwck_guard_def holdInvariant_def regenKeys_def emit_def)
next
  case Regenerate
  show ?thesis
  proof (cases "k \<in> set (urlsOnHold st)")
    case True
    then show ?thesis using assms Regenerate
      by (simp add: gwck_start_def gwck_guard_def holdInvariant_def regenKeys_def emit_def)
  next
    case False
    with assms have "k \<notin> set (regenKeys st)"
      by (auto simp: holdInvariant_def)
    with False assms Regenerate show ?thesis
      by (auto simp: gwck_start_def gwck_guard_def holdInvariant_def regenKeys_def emit_def)
  qed
qed

lemma complete_invariant:
  assumes inv: "holdInvariant st" and i: "i < length (running st)"
    and run: "running st' = running st"
    and hold: "urlsOnHold st' = urlsOnHold st \<or>
      (task_mode (running st ! i) = Regenerate \<and>
       urlsOnHold st' = filter (\<lambda>x. x \<noteq> task_cacheKey (running st ! i)) (urlsOnHold st))"
  shows "holdInvariant (st'\<lparr>running := take i (running st') @ drop (Suc i) (running st')\<rparr>)"
proof -
  let ?P = "\<lambda>t. task_mode t = Regenerate"
  let ?xs = "running st"
  let ?t = "?xs ! i"
  let ?before = "map task_cacheKey (filter ?P (take i ?xs))"
  let ?after = "map task_cacheKey (filter ?P (drop (Suc i) ?xs))"
  have split: "?xs = take i ?xs @ ?t # drop (Suc i) ?xs"
    using i by (rule id_take_nth_drop)
  have keys: "regenKeys st = ?before @ (if ?P ?t then [task_cacheKey ?t] else []) @ ?after"
    unfolding regenKeys_def by (subst split) simp
  have dist: "distinct (?before @ ?after)"
    using inv keys by (auto simp: holdInvariant_def split: if_splits)
  have sub: "set (?before @ ?after) \<subseteq> set (urlsOnHold st)"
    using inv keys by (auto simp: holdInvariant_def split: if_splits)
  have other: "?P ?t \<Longrightarrow> task_cacheKey ?t \<notin> set (?before @ ?after)"
    using inv keys by (auto simp: holdInvariant_def)
  have sub': "set (?before @ ?after) \<subseteq> set (urlsOnHold st')"
  proof -
    define A where "A = set (?before @ ?after)"
    have a: "A \<subseteq> set (urlsOnHold st)" unfolding A_def by (rule sub)
    have b: "?P ?t \<Longrightarrow> task_cacheKey ?t \<notin> A" unfolding A_def by (rule other)
    from hold have "A \<subseteq> set (urlsOnHold st')"
    proof
      assume "urlsOnHold st' = urlsOnHold st"
      with a show ?thesis by simp
    next
      assume h: "?P ?t \<and> urlsOnHold st' = filter (\<lambda>x. x \<noteq> task_cacheKey ?t) (urlsOnHold st)"
      then have "set (urlsOnHold st') = set (urlsOnHold st) - {task_cacheKey ?t}" by auto
      with a b h show ?thesis by blast
    qed
    then show ?thesis unfolding A_def .
  qed
  show ?thesis
    using dist sub' run by (simp add: holdInvariant_def regenKeys_def)
qed

lemma perform_invariant:
  assumes "holdInvariant st"
  shows "holdInvariant (perform env cfg a st)"
proof (cases a)
  case (Call req k m)
  then show ?thesis using assms by (simp add: gwck_start_invariant)
next
  case (Complete i)
  show ?thesis
  proof (cases "i < length (running st)")
    case False
    then show ?thesis using assms Complete by simp
  next
    case True
    obtain out st1 where fin: "gwck_finish env cfg (running st ! i) st = (out, st1)"
      by (cases "gwck_finish env cfg (running st ! i) st")
    have st1: "st1 = snd (gwck_continue env cfg (task_req (running st ! i))
        (task_cacheKey (running st ! i)) (task_mode (running st ! i))
        (renderUrl env (task_req (running st ! i))) st)"
      using fin by (simp add: gwck_finish_def)
    have run: "running st1 = running st"
      unfolding st1 by (rule gwck_continue_running)
    have hold: "urlsOnHold st1 = urlsOnHold st \<or>
      (task_mode (running st ! i) = Regenerate \<and>
       urlsOnHold st1 = filter (\<lambda>x. x \<noteq> task_cacheKey (running st ! i)) (urlsOnHold st))"
      unfolding st1 by (rule gwck_continue_hold)
    have finished: "holdInvariant (st1\<lparr>running := take i (running st1) @ drop (Suc i) (running st1)\<rparr>)"
      using assms True run hold by (rule complete_invariant)
    show ?thesis
      using Complete True fin finished assms by (cases out) simp_all
  qed
qed

lemma interleave_invariant:
  "holdInvariant st \<Longrightarrow> holdInvariant (interleave env cfg acts st)"
  unfolding interleave_def
  by (induction acts arbitrary: st) (simp_all add: perform_invariant)

lemma initial_invariant: "holdInvariant (initial s)"
  by (simp add: holdInvariant_def regenKeys_def initial_def)

lemma distinct_keys_once:
  "distinct (map f xs) \<Longrightarrow> length (filter (\<lambda>x. f x = k) xs) \<le> 1"
proof (induction xs)
  case Nil
  then show ?case by simp
next
  case (Cons x xs)
  show ?case
  proof (cases "f x = k")
    case True
    with Cons.prems have "k \<notin> f ` set xs" by auto
    then have "filter (\<lambda>x. f x = k) xs = []"
      by (auto simp: filter_empty_conv)
    with True show ?thesis by simp
  next
    case False
    with Cons show ?thesis by simp
  qed
qed

lemma invariant_inFlight:
  assumes "holdInvariant st"
  shows "inFlight k st \<le> 1" and "0 < inFlight k st \<Longrightarrow> k \<in> set (urlsOnHold st)"
proof -
  have eq: "filter (\<lambda>t. task_cacheKey t = k \<and> task_mode t = Regenerate) (running st) =
      filter (\<lambda>t. task_cacheKey t = k) (filter (\<lambda>t. task_mode t = Regenerate) (running st))"
    by (simp add: conj_commute)
  show "inFlight k st \<le> 1"
    using assms distinct_keys_once[of task_cacheKey "filter (\<lambda>t. task_mode t = Regenerate) (running st)" k]
    by (simp add: inFlight_def eq holdInvariant_def regenKeys_def)
  show "k \<in> set (urlsOnHold st)" if "0 < inFlight k st"
  proof -
    from that obtain t where "t \<in> set (running st)" "task_cacheKey t = k" "task_mode t = Regenerate"
      by (auto simp: inFlight_def filter_empty_conv)
    then have "k \<in> set (regenKeys st)" by (auto simp: regenKeys_def)
    with assms show ?thesis by (auto simp: holdInvariant_def)
  qed
qed

section \<open>Single-flight regeneration\<close>

text \<open>
  C1. A call of \<open>generateWithCacheKey\<close> in mode \<open>regenerate\<close> for a key that is in
  \<open>urlsOnHold\<close> returns at once with no result and changes nothing but the log: the
  renderer is not called. For a key that is not in \<open>urlsOnHold\<close> the key is inserted first,
  no render having been started, and the rendering runs from the state that holds it.
  Whatever calls and completions the event loop interleaves from a new
  \<open>CacheGeneration\<close>, at most one call in mode \<open>regenerate\<close> per key is suspended at the
  renderer, and while one is, the key is in \<open>urlsOnHold\<close>.
\<close>

theorem single_flight_regeneration:
  "(k \<in> set (urlsOnHold st) \<longrightarrow>
      generateWithCacheKey env cfg req k Regenerate st =
        (Resolved None, emit (LoggerInfo ''Another generation is on-going for this url...'') st) \<and>
      gwck_start req k Regenerate st =
        emit (LoggerInfo ''Another generation is on-going for this url...'') st)
   \<and> (k \<notin> set (urlsOnHold st) \<longrightarrow>
        (\<exists>st1. gwck_guard k Regenerate st = (True, st1) \<and>
           k \<in> set (urlsOnHold st1) \<and>
           filter is_render (trace st1) = filter is_render (trace st) \<and>
           generateWithCacheKey env cfg req k Regenerate st = gwck_try env cfg req k Regenerate st1))
   \<and> inFlight k (interleave env cfg acts (initial s)) \<le> 1
   \<and> (0 < inFlight k (interleave env cfg acts (initial s)) \<longrightarrow>
        k \<in> set (urlsOnHold (interleave env cfg acts (initial s))))"
proof -
  have inv: "holdInvariant (interleave env cfg acts (initial s))"
    by (rule interleave_invariant[OF initial_invariant])
  show ?thesis
    using invariant_inFlight[OF inv, of k]
    by (auto simp: generateWithCacheKey_def gwck_start_def gwck_guard_def emit_def)
qed


text \<open>
  The page \<open>/a\<close>: a call while the key is held, a call on a new handler, and two
  overlapping calls of which the second is skipped.
\<close>

theorem single_flight_regeneration_witness:
  "''/a'' \<in> set (urlsOnHold ((initial [])\<lparr>urlsOnHold := [''/a'']\<rparr>))
   \<and> generateWithCacheKey (sampleEnv (Resolved ''<html/>'') (Number 60)) sampleConfig
        (sampleRequest ''/a'') ''/a'' Regenerate ((initial [])\<lparr>urlsOnHold := [''/a'']\<rparr>) =
       (Resolved None,
        emit (LoggerInfo ''Another generation is on-going for this url...'')
          ((initial [])\<lparr>urlsOnHold := [''/a'']\<rparr>))
   \<and> ''/a'' \<notin> set (urlsOnHold (initial ([] :: mem_store)))
   \<and> (\<exists>st1. gwck_guard ''/a'' Regenerate (initial ([] :: mem_store)) = (True, st1) \<and>
         ''/a'' \<in> set (urlsOnHold st1) \<and>
         filter is_render (trace st1) = filter is_render (trace (initial ([] :: mem_store))) \<and>
         generateWithCacheKey (sampleEnv (Resolved ''<html/>'') (Number 60)) sampleConfig
           (sampleRequest ''/a'') ''/a'' Regenerate (initial []) =
         gwck_try (sampleEnv (Resolved ''<html/>'') (Number 60)) sampleConfig
           (sampleRequest ''/a'') ''/a'' Regenerate st1)
   \<and> inFlight ''/a''
        (interleave (sampleEnv (Resolved ''<html/>'') (Number 60)) sampleConfig
           [Call (sampleRequest ''/a'') ''/a'' Regenerate, Call (sampleRequest ''/a'') ''/a'' Regenerate]
           (initial [])) = 1
   \<and> ''/a'' \<in> set (urlsOnHold
        (interleave (sampleEnv (Resolved ''<html/>'') (Number 60)) sampleConfig
           [Call (sampleRequest ''/a'') ''/a'' Regenerate, Call (sampleRequest ''/a'') ''/a'' Regenerate]
           (initial [])))"
proof -
  let ?env = "sampleEnv (Resolved ''<html/>'') (Number 60)"
  let ?acts = "[Call (sampleRequest ''/a'') ''/a'' Regenerate, Call (sampleRequest ''/a'') ''/a'' Regenerate]"
  have one: "0 < inFlight ''/a'' (interleave ?env sampleConfig ?acts (initial []))"
    by (simp add: interleave_def gwck_start_def gwck_guard_def emit_def initial_def inFlight_def)
  have held: "''/a'' \<in> set (urlsOnHold ((initial ([] :: mem_store))\<lparr>urlsOnHold := [''/a'']\<rparr>))"
    by simp
  have free: "''/a'' \<notin> set (urlsOnHold (initial ([] :: mem_store)))"
    by (simp add: initial_def)
  show ?thesis
    using single_flight_regeneration[of "''/a''" "(initial ([] :: mem_store))\<lparr>urlsOnHold := [''/a'']\<rparr>"
        ?env sampleConfig "sampleRequest ''/a''" ?acts "[]"]
      single_flight_regeneration[of "''/a''" "initial ([] :: mem_store)"
        ?env sampleConfig "sampleRequest ''/a''" ?acts "[]"]
      one held free
    by (simp add: le_Suc_eq)
qed

section \<open>The caching decision\<close>

text \<open>
  C4. For a call of \<open>generateWithCacheKey\<close> that is not skipped, whose render succeeds and
  whose post-processing yields \<open>finalHtml\<close>: when the resolved revalidate (the reported
  value or else the configured default) is \<open>-1\<close>, \<open>null\<close> or \<open>undefined\<close>, no operation
  of the store is called and the store is unchanged. When the call does not take the
  skip-caching-on-error return of lines 114-124, it returns the content only, and for
  every other resolved value the one operation of the store is \<open>add\<close> of the key with the
  content, the resolved revalidate and the build id, and the store the call leaves is the
  one this \<open>add\<close> leaves.
\<close>

theorem no_caching_without_revalidate:
  assumes entered: "m = Generate \<or> k \<notin> set (urlsOnHold st)"
    and rendered: "renderUrl env req = Resolved h"
    and isr: "getRouteISRDataFromHTML env h = (reported, errs)"
    and processed: "postProcess env cfg req h reported = Resolved finalHtml"
  shows
    "(resolvedRevalidate cfg reported \<in> {Number (- 1), Null, Undefined} \<longrightarrow>
        filter is_store_op (added st (snd (generateWithCacheKey env cfg req k m st))) = [] \<and>
        store (snd (generateWithCacheKey env cfg req k m st)) = store st)
     \<and> (\<not> ((case errs of None \<Rightarrow> False | Some es \<Rightarrow> es \<noteq> []) \<and> skipCachingOnHttpError cfg) \<longrightarrow>
          fst (generateWithCacheKey env cfg req k m st) =
            Resolved (Some \<lparr>gen_html = finalHtml, gen_errors = None\<rparr>))
     \<and> (\<not> ((case errs of None \<Rightarrow> False | Some es \<Rightarrow> es \<noteq> []) \<and> skipCachingOnHttpError cfg) \<and>
        resolvedRevalidate cfg reported \<notin> {Number (- 1), Null, Undefined} \<longrightarrow>
          filter is_store_op (added st (snd (generateWithCacheKey env cfg req k m st))) =
            [CacheAdd k finalHtml
               \<lparr>opt_revalidate = resolvedRevalidate cfg reported, opt_buildId = buildId cfg\<rparr>] \<and>
          store (snd (generateWithCacheKey env cfg req k m st)) =
            snd (cache_add (cache env) k finalHtml
                   \<lparr>opt_revalidate = resolvedRevalidate cfg reported, opt_buildId = buildId cfg\<rparr>
                   (store st)))"
  using assms
  by (cases m)
    (auto simp: generateWithCacheKey_def gwck_guard_def gwck_try_def gwck_continue_def
      gwck_decide_def Let_def releaseHold_def addToCache_def awaitWithTimeout_eq emit_def added_def
      split: prod.splits)

text \<open>
  A page that reports \<open>revalidate: 0\<close> with no default configured is not cached; a page
  that reports \<open>60\<close> is.
\<close>

theorem no_caching_without_revalidate_witness:
  "fst (generateWithCacheKey (sampleEnv (Resolved ''<html/>'') (Number 0)) sampleConfig
         (sampleRequest ''/a'') ''/a'' Regenerate (initial [])) =
     Resolved (Some \<lparr>gen_html = HtmlString ''<html/>'', gen_errors = None\<rparr>)
   \<and> resolvedRevalidate sampleConfig (Number 0) = Undefined
   \<and> filter is_store_op (added (initial [])
        (snd (generateWithCacheKey (sampleEnv (Resolved ''<html/>'') (Number 0)) sampleConfig
               (sampleRequest ''/a'') ''/a'' Regenerate (initial [])))) = []
   \<and> resolvedRevalidate sampleConfig (Number 60) = Number 60
   \<and> filter is_store_op (added (initial [])
        (snd (generateWithCacheKey (sampleEnv (Resolved ''<html/>'') (Number 60)) sampleConfig
               (sampleRequest ''/a'') ''/a'' Generate (initial [])))) =
       [CacheAdd ''/a'' (HtmlString ''<html/>'') \<lparr>opt_revalidate = Number 60, opt_buildId = None\<rparr>]
   \<and> store (snd (generateWithCacheKey (sampleEnv (Resolved ''<html/>'') (Number 60)) sampleConfig
         (sampleRequest ''/a'') ''/a'' Generate (initial []))) =
       [(''/a'',
         \<lparr>cd_html = HtmlString ''<html/>'',
          options = \<lparr>opt_revalidate = Number 60, opt_buildId = None\<rparr>, createdAt = 0\<rparr>)]
   \<and> store (snd (generateWithCacheKey (sampleEnv (Resolved ''<html/>'') (Number 0)) sampleConfig
         (sampleRequest ''/a'') ''/a'' Regenerate (initial []))) = []"
proof -
  have a: "resolvedRevalidate sampleConfig (Number 0) = Undefined"
    and b: "resolvedRevalidate sampleConfig (Number 60) = Number 60"
    and c: "buildId sampleConfig = None"
    and d: "snd (cache_add (cache (sampleEnv (Resolved ''<html/>'') (Number 60))) ''/a''
          (HtmlString ''<html/>'') \<lparr>opt_revalidate = Number 60, opt_buildId = None\<rparr>
          (store (initial ([] :: mem_store)))) =
       [(''/a'',
         \<lparr>cd_html = HtmlString ''<html/>'',
          options = \<lparr>opt_revalidate = Number 60, opt_buildId = None\<rparr>, createdAt = 0\<rparr>)]"
    and e: "store (initial ([] :: mem_store)) = []"
    by (simp_all add: resolvedRevalidate_def sample_defs)
  have free: "Regenerate = Generate \<or> ''/a'' \<notin> set (urlsOnHold (initial ([] :: mem_store)))"
    and free2: "Generate = Generate \<or> ''/a'' \<notin> set (urlsOnHold (initial ([] :: mem_store)))"
    by (simp_all add: initial_def)
  have r: "renderUrl (sampleEnv (Resolved ''<html/>'') rv) (sampleRequest ''/a'') = Resolved ''<html/>''"
    and i: "getRouteISRDataFromHTML (sampleEnv (Resolved ''<html/>'') rv) ''<html/>'' = (rv, None)"
    and p: "postProcess (sampleEnv (Resolved ''<html/>'') rv) sampleConfig (sampleRequest ''/a'')
      ''<html/>'' rv = Resolved (HtmlString ''<html/>'')" for rv
    by (simp_all add: postProcess_def sampleEnv_def sampleConfig_def)
  show ?thesis
    using no_caching_without_revalidate[OF free r[of "Number 0"] i[of "Number 0"] p[of "Number 0"]]
      no_caching_without_revalidate[OF free2 r[of "Number 60"] i[of "Number 60"] p[of "Number 60"]]
      a b c d e
    by simp
qed

lemma gwck_decide_added:
  "trace (snd (gwck_decide env cfg k m rv errs h st)) =
     trace st @
       (if ((case errs of None \<Rightarrow> False | Some es \<Rightarrow> es \<noteq> []) \<and> skipCachingOnHttpError cfg)
           \<or> resolvedRevalidate cfg rv \<in> {Number (- 1), Null, Undefined} then []
        else [CacheAdd k h \<lparr>opt_revalidate = resolvedRevalidate cfg rv, opt_buildId = buildId cfg\<rparr>])"
  by (simp add: gwck_decide_def Let_def releaseHold_fields addToCache_fields)

lemma gwck_continue_added:
  "\<exists>adds. trace (snd (gwck_continue env cfg req k m r st)) = trace st @ adds \<and>
     (adds = [] \<or>
      (\<exists>h fh. r = Resolved h \<and> 
         resolvedRevalidate cfg (fst (getRouteISRDataFromHTML env h)) \<notin> {Number (- 1), Null, Undefined} \<and>
         adds = [CacheAdd k fh \<lparr>opt_revalidate = resolvedRevalidate cfg (fst (getRouteISRDataFromHTML env h)),
                    opt_buildId = buildId cfg\<rparr>]))"
  by (auto simp add: gwck_continue_def gwck_catch_def releaseHold_fields gwck_decide_added
      split: outcome.splits prod.splits)

lemma generateWithCacheKey_added:
  "\<exists>pre adds. added st (snd (generateWithCacheKey env cfg req k m st)) = pre @ adds \<and>
     filter is_store_op pre = [] \<and>
     (adds = [] \<or>
      (\<exists>h fh. renderUrl env req = Resolved h \<and>
         resolvedRevalidate cfg (fst (getRouteISRDataFromHTML env h)) \<notin> {Number (- 1), Null, Undefined} \<and>
         adds = [CacheAdd k fh \<lparr>opt_revalidate = resolvedRevalidate cfg (fst (getRouteISRDataFromHTML env h)),
                    opt_buildId = buildId cfg\<rparr>]))"
proof (cases "gwck_guard k m st")
  case (Pair entered st1)
  have g: "\<exists>pre. trace st1 = trace st @ pre \<and> filter is_store_op pre = []"
    using Pair by (auto simp: gwck_guard_def emit_def split: if_splits)
  then obtain pre where pre: "trace st1 = trace st @ pre" "filter is_store_op pre = []" by blast
  show ?thesis
  proof (cases entered)
    case False
    then have "added st (snd (generateWithCacheKey env cfg req k m st)) = pre @ []"
      using Pair pre by (simp add: generateWithCacheKey_def added_def)
    then show ?thesis using pre by blast
  next
    case True
    obtain adds where adds: "trace (snd (gwck_continue env cfg req k m (renderUrl env req)
          (emit (RenderUrl (req_url req)) st1))) = trace (emit (RenderUrl (req_url req)) st1) @ adds"
      and shape: "adds = [] \<or>
      (\<exists>h fh. renderUrl env req = Resolved h \<and> 
         resolvedRevalidate cfg (fst (getRouteISRDataFromHTML env h)) \<notin> {Number (- 1), Null, Undefined} \<and>
         adds = [CacheAdd k fh \<lparr>opt_revalidate = resolvedRevalidate cfg (fst (getRouteISRDataFromHTML env h)),
                    opt_buildId = buildId cfg\<rparr>])"
      using gwck_continue_added[of env cfg req k m "renderUrl env req" "emit (RenderUrl (req_url req)) st1"]
      by blast
    have "added st (snd (generateWithCacheKey env cfg req k m st)) = (pre @ [RenderUrl (req_url req)]) @ adds"
      using Pair True adds pre
      by (simp add: generateWithCacheKey_def gwck_try_def added_def emit_fields)
    moreover have "filter is_store_op (pre @ [RenderUrl (req_url req)]) = []"
      using pre by simp
    ultimately show ?thesis using shape by blast
  qed
qed

text \<open>
  C10. Whatever a call of \<open>generateWithCacheKey\<close> adds to the store with revalidate \<open>0\<close>,
  the configured default revalidate is \<open>0\<close>. When the page reports \<open>0\<close>, every entry the
  call adds carries the configured default, and with a default that is \<open>null\<close> or
  \<open>undefined\<close> the call performs no operation of the store.
\<close>

theorem reported_zero_takes_default:
  "(CacheAdd k' h' c \<in> set (added st (snd (generateWithCacheKey env cfg req k m st))) \<and>
      opt_revalidate c = Number 0 \<longrightarrow> defaultRevalidate cfg = Number 0)
   \<and> (renderUrl env req = Resolved h \<and> fst (getRouteISRDataFromHTML env h) = Number 0 \<longrightarrow>
        (CacheAdd k' h' c \<in> set (added st (snd (generateWithCacheKey env cfg req k m st))) \<longrightarrow>
           opt_revalidate c = defaultRevalidate cfg) \<and>
        (defaultRevalidate cfg \<in> {Null, Undefined} \<longrightarrow>
           filter is_store_op (added st (snd (generateWithCacheKey env cfg req k m st))) = []))"
proof -
  obtain pre adds where split: "added st (snd (generateWithCacheKey env cfg req k m st)) = pre @ adds"
    and pre: "filter is_store_op pre = []"
    and shape: "adds = [] \<or>
      (\<exists>h fh. renderUrl env req = Resolved h \<and>
         resolvedRevalidate cfg (fst (getRouteISRDataFromHTML env h)) \<notin> {Number (- 1), Null, Undefined} \<and>
         adds = [CacheAdd k fh \<lparr>opt_revalidate = resolvedRevalidate cfg (fst (getRouteISRDataFromHTML env h)),
                    opt_buildId = buildId cfg\<rparr>])"
    using generateWithCacheKey_added[of st env cfg req k m] by blast
  have nopre: "CacheAdd k' h' c \<notin> set pre"
  proof
    assume "CacheAdd k' h' c \<in> set pre"
    then have "CacheAdd k' h' c \<in> set (filter is_store_op pre)" by simp
    with pre show False by simp
  qed
  have zero: "resolvedRevalidate cfg rv = Number 0 \<Longrightarrow> defaultRevalidate cfg = Number 0" for rv
    by (cases rv) (auto simp: resolvedRevalidate_def split: if_splits)
  have dflt: "resolvedRevalidate cfg (Number 0) = defaultRevalidate cfg"
    by (simp add: resolvedRevalidate_def)
  show ?thesis
    using split pre shape nopre zero dflt by (auto simp: filter_empty_conv)
qed


text \<open>
  A page that reports \<open>0\<close>: stored with revalidate \<open>0\<close> under a default of \<open>0\<close>, not
  stored without a default.
\<close>

theorem reported_zero_takes_default_witness:
  "CacheAdd ''/a'' (HtmlString ''<html/>'') \<lparr>opt_revalidate = Number 0, opt_buildId = None\<rparr>
     \<in> set (added (initial [])
         (snd (generateWithCacheKey (sampleEnv (Resolved ''<html/>'') (Number 0))
                 (sampleConfig\<lparr>defaultRevalidate := Number 0\<rparr>)
                 (sampleRequest ''/a'') ''/a'' Generate (initial []))))
   \<and> defaultRevalidate (sampleConfig\<lparr>defaultRevalidate := Number 0\<rparr>) = Number 0
   \<and> defaultRevalidate sampleConfig = Undefined
   \<and> filter is_store_op (added (initial [])
         (snd (generateWithCacheKey (sampleEnv (Resolved ''<html/>'') (Number 0)) sampleConfig
                 (sampleRequest ''/a'') ''/a'' Generate (initial [])))) = []"
proof -
  have stored: "CacheAdd ''/a'' (HtmlString ''<html/>'') \<lparr>opt_revalidate = Number 0, opt_buildId = None\<rparr>
     \<in> set (added (initial [])
         (snd (generateWithCacheKey (sampleEnv (Resolved ''<html/>'') (Number 0))
                 (sampleConfig\<lparr>defaultRevalidate := Number 0\<rparr>)
                 (sampleRequest ''/a'') ''/a'' Generate (initial []))))"
    by (simp add: gwck_defs sample_defs awaitWithTimeout_eq added_def Let_def)
  have r: "renderUrl (sampleEnv (Resolved ''<html/>'') (Number 0)) (sampleRequest ''/a'') =
      Resolved ''<html/>''"
    and z: "fst (getRouteISRDataFromHTML (sampleEnv (Resolved ''<html/>'') (Number 0)) ''<html/>'') = Number 0"
    and d: "defaultRevalidate sampleConfig = Undefined"
    by (simp_all add: sample_defs)
  show ?thesis
    using stored r z d
      reported_zero_takes_default[of "''/a''" "HtmlString ''<html/>''"
        "\<lparr>opt_revalidate = Number 0, opt_buildId = None\<rparr>" "initial ([] :: mem_store)"
        "sampleEnv (Resolved ''<html/>'') (Number 0)" "sampleConfig\<lparr>defaultRevalidate := Number 0\<rparr>"
        "sampleRequest ''/a''" "''/a''" Generate "''<html/>''"]
      reported_zero_takes_default[of "''/a''" "HtmlString ''<html/>''"
        "\<lparr>opt_revalidate = Number 0, opt_buildId = None\<rparr>" "initial ([] :: mem_store)"
        "sampleEnv (Resolved ''<html/>'') (Number 0)" sampleConfig
        "sampleRequest ''/a''" "''/a''" Generate "''<html/>''"]
    by simp
qed

section \<open>Release of the registry\<close>

text \<open>
  A call in mode \<open>regenerate\<close> that inserted its key and has returned or thrown leaves the
  key in \<open>urlsOnHold\<close> exactly when it returned at line 132 or line 138, the two returns
  of the decision not to cache.
\<close>

lemma hold_released_except_not_cached:
  assumes "k \<notin> set (urlsOnHold st)"
    and "fst (generateWithCacheKey env cfg req k Regenerate st) \<noteq> Pending"
  shows "k \<in> set (urlsOnHold (snd (generateWithCacheKey env cfg req k Regenerate st))) \<longleftrightarrow>
    (\<exists>h fh. renderUrl env req = Resolved h \<and>
       postProcess env cfg req h (fst (getRouteISRDataFromHTML env h)) = Resolved fh \<and>
       \<not> ((case snd (getRouteISRDataFromHTML env h) of None \<Rightarrow> False | Some es \<Rightarrow> es \<noteq> []) \<and>
          skipCachingOnHttpError cfg) \<and>
       resolvedRevalidate cfg (fst (getRouteISRDataFromHTML env h)) \<in> {Number (- 1), Null, Undefined})"
  using assms
  by (auto simp: generateWithCacheKey_def gwck_guard_def gwck_try_def gwck_continue_def
      gwck_catch_def gwck_decide_def Let_def releaseHold_fields addToCache_fields emit_fields
      split: outcome.splits prod.splits if_splits)

text \<open>
  C2. The page \<open>/a\<close> reports \<open>revalidate: -1\<close> and is regenerated on a new handler: the
  call returns the content and \<open>/a\<close> stays in \<open>urlsOnHold\<close>, so that the next
  regeneration of \<open>/a\<close> is skipped. The same page reporting \<open>60\<close> leaves the registry
  empty.
\<close>

theorem hold_kept_when_not_cached:
  "fst (generateWithCacheKey (sampleEnv (Resolved ''<html/>'') (Number (- 1))) sampleConfig
         (sampleRequest ''/a'') ''/a'' Regenerate (initial [])) =
     Resolved (Some \<lparr>gen_html = HtmlString ''<html/>'', gen_errors = None\<rparr>)
   \<and> urlsOnHold (snd (generateWithCacheKey (sampleEnv (Resolved ''<html/>'') (Number (- 1)))
         sampleConfig (sampleRequest ''/a'') ''/a'' Regenerate (initial []))) = [''/a'']
   \<and> fst (generateWithCacheKey (sampleEnv (Resolved ''<html/>'') (Number 60)) sampleConfig
         (sampleRequest ''/a'') ''/a'' Regenerate
         (snd (generateWithCacheKey (sampleEnv (Resolved ''<html/>'') (Number (- 1)))
            sampleConfig (sampleRequest ''/a'') ''/a'' Regenerate (initial [])))) = Resolved None
   \<and> urlsOnHold (snd (generateWithCacheKey (sampleEnv (Resolved ''<html/>'') (Number 60))
         sampleConfig (sampleRequest ''/a'') ''/a'' Regenerate (initial []))) = []"
  by (simp add: gwck_defs sample_defs awaitWithTimeout_eq Let_def)


section \<open>Serving from the cache\<close>


lemma sendHtml_plain:
  "compressHtml cfg = None \<Longrightarrow> modifyCachedHtml config = None \<Longrightarrow>
     sendHtml env cfg req config h st = (Resolved (), emit (Send h) st)"
  by (simp add: sendHtml_def)




lemma serve_usable:
  assumes "cacheGet env cfg
      (getCacheKey cfg (req_url req) (allowedQueryParams cfg) (getVariant env req (variants cfg))) st =
      (Resolved cacheData, st1)"
    and "opt_buildId (options cacheData) = None \<or> opt_buildId (options cacheData) = buildId cfg"
    and "opt_revalidate (options cacheData) = Number n"
  shows "serveFromCache env cfg now req config st =
    (let k = getCacheKey cfg (req_url req) (allowedQueryParams cfg) (getVariant env req (variants cfg));
         finalHtml = storedHtml env cfg cacheData
     in if 0 < n \<and> lastCacheDateDiff now (createdAt cacheData) > of_int n then
          if backgroundRevalidation cfg then
            sendHtml env cfg req config finalHtml (gwck_start req k Regenerate st1)
          else
            (case generateWithCacheKey env cfg req k Regenerate st1 of
               (Pending, st2) \<Rightarrow> (Pending, st2)
             | (Rejected e, st2) \<Rightarrow> sendHtml env cfg req config finalHtml (emit Next st2)
             | (Resolved result, st2) \<Rightarrow>
                 sendHtml env cfg req config
                   (case result of
                      None \<Rightarrow> finalHtml
                    | Some g \<Rightarrow> if truthy_html (gen_html g) then gen_html g else finalHtml)
                   st2)
        else sendHtml env cfg req config finalHtml st1)"
  using assms by (auto simp: serveFromCache_def Let_def)







text \<open>
  The page \<open>/a\<close>, cached at time 0 with revalidate 60: served from the cache after 30 s,
  regenerated after 61 s; cached with revalidate 0, served from the cache at any time.
\<close>

lemmas serve_defs =
  serveFromCache_def cacheGet_def sendHtml_def storedHtml_def lastCacheDateDiff_def
  getCacheKey_def gwck_start_def


section \<open>A failed synchronous regeneration\<close>

text \<open>
  With background revalidation off and a stale entry, a regeneration that throws makes
  \<open>serveFromCache\<close> call \<open>next()\<close> and then go on to send the stale content: the
  \<open>catch\<close> of lines 286-289 does not return.
\<close>

lemma sync_failure_also_sends:
  assumes "cacheGet env cfg
      (getCacheKey cfg (req_url req) (allowedQueryParams cfg) (getVariant env req (variants cfg))) st =
      (Resolved cacheData, st1)"
    and "opt_buildId (options cacheData) = None \<or> opt_buildId (options cacheData) = buildId cfg"
    and "opt_revalidate (options cacheData) = Number n"
    and "0 < n" and "lastCacheDateDiff now (createdAt cacheData) > of_int n"
    and "\<not> backgroundRevalidation cfg"
    and "generateWithCacheKey env cfg req
      (getCacheKey cfg (req_url req) (allowedQueryParams cfg) (getVariant env req (variants cfg)))
      Regenerate st1 = (Rejected e, st2)"
  shows "serveFromCache env cfg now req config st =
    sendHtml env cfg req config (storedHtml env cfg cacheData) (emit Next st2)"
  using serve_usable[OF assms(1-3), of now config] assms(4-7) by (simp add: Let_def)

text \<open>
  C5. The page \<open>/a\<close>, cached at time 0 with revalidate 60 and requested after 61 s, the
  renderer timing out: the handler calls \<open>next()\<close> and sends the stale page as well.
\<close>

theorem stale_sent_after_next:
  "added (initial [(''/a'', sampleEntry ''<cached/>'' 60 0)])
     (snd (serveFromCache (sampleEnv (Rejected (Error ''Rendering timeout after 10000 ms'')) (Number 60))
             sampleConfig 61000 (sampleRequest ''/a'') \<lparr>modifyCachedHtml = None\<rparr>
             (initial [(''/a'', sampleEntry ''<cached/>'' 60 0)]))) =
     [CacheGet ''/a'', LoggerInfo ''The url: /a is being regenerate.'', RenderUrl ''/a'', Next,
      Send (HtmlString ''<cached/>'')]"
  by (simp add: serve_defs gwck_defs sample_defs awaitWithTimeout_eq added_def Let_def)


section \<open>Invalidation\<close>

lemma fold_pushVariant:
  "fold (pushVariant cfg u) vs result = result @ map (variantItem cfg u) vs"
  by (induction vs arbitrary: result) (simp_all add: pushVariant_def)

lemma fold_pushUrl:
  "fold (pushUrl cfg vs) urls result =
     result @ concat (map (\<lambda>u. defaultItem u # map (variantItem cfg u) vs) urls)"
  by (induction urls arbitrary: result) (simp_all add: pushUrl_def fold_pushVariant)

lemma getVariantUrlsToInvalidate_eq:
  "getVariantUrlsToInvalidate cfg urls =
     concat (map (\<lambda>u. defaultItem u # map (variantItem cfg u) (configuredVariants cfg)) urls)"
  by (simp add: getVariantUrlsToInvalidate_def fold_pushUrl)

lemma length_expansion:
  "length (concat (map (\<lambda>u. defaultItem u # map (variantItem cfg u) vs) urls)) =
     length urls * (1 + length vs)"
  by (induction urls) simp_all

lemma hasChecks_append: "hasChecks (xs @ ys) = hasChecks xs @ hasChecks ys"
  by (induction xs rule: hasChecks.induct) simp_all

lemma hasChecks_no_store_op: "filter is_store_op xs = [] \<Longrightarrow> hasChecks xs = []"
  by (induction xs rule: hasChecks.induct) (simp_all split: if_splits)

lemma cacheHas_trace:
  "trace (snd (cacheHas env cfg k st)) = trace st @ [CacheHas k (fst (cacheHas env cfg k st))]"
  by (simp add: cacheHas_def awaitWithTimeout_eq emit_fields Let_def split: prod.splits)

lemma generateWithCacheKey_trace:
  "\<exists>evs. trace (snd (generateWithCacheKey env cfg req k m st)) = trace st @ evs \<and> hasChecks evs = []"
proof (cases "gwck_guard k m st")
  case (Pair entered st1)
  have "\<exists>pre. trace st1 = trace st @ pre \<and> hasChecks pre = []"
    using Pair by (auto simp: gwck_guard_def emit_def split: if_splits)
  then obtain pre where pre: "trace st1 = trace st @ pre" "hasChecks pre = []" by blast
  show ?thesis
  proof (cases entered)
    case False
    then show ?thesis using Pair pre by (simp add: generateWithCacheKey_def)
  next
    case True
    obtain adds where adds: "trace (snd (gwck_continue env cfg req k m (renderUrl env req)
          (emit (RenderUrl (req_url req)) st1))) = trace (emit (RenderUrl (req_url req)) st1) @ adds"
      and shape: "adds = [] \<or> (\<exists>fh c. adds = [CacheAdd k fh c])"
      using gwck_continue_added[of env cfg req k m "renderUrl env req" "emit (RenderUrl (req_url req)) st1"]
      by blast
    have "trace (snd (generateWithCacheKey env cfg req k m st)) =
        trace st @ (pre @ [RenderUrl (req_url req)] @ adds)"
      using Pair True adds pre by (simp add: generateWithCacheKey_def gwck_try_def emit_fields)
    moreover have "hasChecks (pre @ [RenderUrl (req_url req)] @ adds) = []"
      using pre shape by (auto simp: hasChecks_append)
    ultimately show ?thesis by blast
  qed
qed

lemma generate_settles:
  assumes "\<forall>r. renderUrl env r \<noteq> Pending"
    and "\<forall>c s. compressHtml cfg = Some c \<longrightarrow> c s \<noteq> Pending"
  shows "fst (generateWithCacheKey env cfg req k m st) \<noteq> Pending"
proof -
  have r: "renderUrl env req \<noteq> Pending" using assms(1) by simp
  have p: "postProcess env cfg req h rv \<noteq> Pending" for h rv
    using assms(2) by (auto simp: postProcess_def Let_def split: option.splits outcome.splits)
  have d: "fst (gwck_decide env cfg k m rv errs fh st') \<noteq> Pending" for rv errs fh st'
    by (simp add: gwck_decide_def Let_def)
  have c: "fst (gwck_continue env cfg req k m (renderUrl env req) st') \<noteq> Pending" for st'
    using r p d
    by (auto simp: gwck_continue_def gwck_catch_def split: outcome.splits prod.splits)
  show ?thesis
    using c by (auto simp: generateWithCacheKey_def gwck_try_def split: prod.splits bool.splits)
qed

lemma invalidateLoop_checks:
  assumes r: "\<forall>r. renderUrl env r \<noteq> Pending"
    and c: "\<forall>c s. compressHtml cfg = Some c \<longrightarrow> c s \<noteq> Pending"
  shows "\<exists>nic uwe st' evs.
      invalidateLoop env cfg items req nic0 uwe0 st = (Resolved (nic, uwe), st') \<and>
      trace st' = trace st @ evs \<and>
      map fst (hasChecks evs) = map item_cacheKey items \<and>
      nic = nic0 @ map fst (filter (\<lambda>c. \<not> snd c) (hasChecks evs))"
proof (induction items arbitrary: req nic0 uwe0 st)
  case Nil
  show ?case by simp
next
  case (Cons it rest)
  let ?k = "item_cacheKey it"
  obtain b st1 where has: "cacheHas env cfg ?k st = (b, st1)"
    by (cases "cacheHas env cfg ?k st")
  have tr1: "trace st1 = trace st @ [CacheHas ?k b]"
    using cacheHas_trace[of env cfg ?k st] has by simp
  show ?case
  proof (cases b)
    case False
    obtain nic uwe st' evs where ih:
      "invalidateLoop env cfg rest req (nic0 @ [?k]) uwe0 st1 = (Resolved (nic, uwe), st')"
      "trace st' = trace st1 @ evs"
      "map fst (hasChecks evs) = map item_cacheKey rest"
      "nic = (nic0 @ [?k]) @ map fst (filter (\<lambda>c. \<not> snd c) (hasChecks evs))"
      using Cons.IH[of req "nic0 @ [?k]" uwe0 st1] by blast
    have "invalidateLoop env cfg (it # rest) req nic0 uwe0 st = (Resolved (nic, uwe), st')"
      using has False ih(1) by simp
    moreover have "trace st' = trace st @ (CacheHas ?k b # evs)"
      using tr1 ih(2) by simp
    moreover have "map fst (hasChecks (CacheHas ?k b # evs)) = map item_cacheKey (it # rest)"
      using ih(3) by simp
    moreover have "nic = nic0 @ map fst (filter (\<lambda>c. \<not> snd c) (hasChecks (CacheHas ?k b # evs)))"
      using ih(4) False by simp
    ultimately show ?thesis by blast
  next
    case True
    let ?req1 = "req\<lparr>req_url := item_url it\<rparr>"
    obtain out st2 where gen:
      "generateWithCacheKey env cfg (item_reqSimulator it ?req1) ?k Generate st1 = (out, st2)"
      by (cases "generateWithCacheKey env cfg (item_reqSimulator it ?req1) ?k Generate st1")
    have np: "out \<noteq> Pending"
      using generate_settles[OF r c, of "item_reqSimulator it ?req1" ?k Generate st1] gen by simp
    obtain gevs where tr2: "trace st2 = trace st1 @ gevs" and nochecks: "hasChecks gevs = []"
      using generateWithCacheKey_trace[of env cfg "item_reqSimulator it ?req1" ?k Generate st1] gen
      by auto
    obtain uwe1 where step:
      "invalidateLoop env cfg (it # rest) req nic0 uwe0 st =
         invalidateLoop env cfg rest ?req1 nic0 uwe1 st2"
      using has True gen np by (cases out) (simp_all add: Let_def)
    obtain nic uwe st' evs where ih:
      "invalidateLoop env cfg rest ?req1 nic0 uwe1 st2 = (Resolved (nic, uwe), st')"
      "trace st' = trace st2 @ evs"
      "map fst (hasChecks evs) = map item_cacheKey rest"
      "nic = nic0 @ map fst (filter (\<lambda>c. \<not> snd c) (hasChecks evs))"
      using Cons.IH[of ?req1 nic0 uwe1 st2] by blast
    have "invalidateLoop env cfg (it # rest) req nic0 uwe0 st = (Resolved (nic, uwe), st')"
      using step ih(1) by simp
    moreover have "trace st' = trace st @ (CacheHas ?k b # gevs @ evs)"
      using tr1 tr2 ih(2) by simp
    moreover have "map fst (hasChecks (CacheHas ?k b # gevs @ evs)) = map item_cacheKey (it # rest)"
      using ih(3) nochecks by (simp add: hasChecks_append)
    moreover have "nic = nic0 @ map fst (filter (\<lambda>c. \<not> snd c) (hasChecks (CacheHas ?k b # gevs @ evs)))"
      using ih(4) nochecks True by (simp add: hasChecks_append)
    ultimately show ?thesis by blast
  qed
qed

text \<open>
  The state the loop leaves is the state after one attempt per item, in order: the check
  of the item's key and, when the key is there, the rebuild.
\<close>

lemma invalidateLoop_attempts:
  assumes r: "\<forall>r. renderUrl env r \<noteq> Pending"
    and c: "\<forall>c s. compressHtml cfg = Some c \<longrightarrow> c s \<noteq> Pending"
  shows "snd (invalidateLoop env cfg items req nic0 uwe0 st) =
    fold (\<lambda>it s.
            case cacheHas env cfg (item_cacheKey it) s of
              (urlExists, s1) \<Rightarrow>
                if urlExists then
                  snd (generateWithCacheKey env cfg
                         (item_reqSimulator it (req\<lparr>req_url := item_url it\<rparr>))
                         (item_cacheKey it) Generate s1)
                else s1)
      items st"
proof (induction items arbitrary: req nic0 uwe0 st)
  case Nil
  show ?case by simp
next
  case (Cons it rest)
  let ?k = "item_cacheKey it"
  let ?req1 = "req\<lparr>req_url := item_url it\<rparr>"
  obtain b st1 where has: "cacheHas env cfg ?k st = (b, st1)"
    by (cases "cacheHas env cfg ?k st")
  show ?case
  proof (cases b)
    case False
    have "invalidateLoop env cfg (it # rest) req nic0 uwe0 st =
        invalidateLoop env cfg rest req (nic0 @ [?k]) uwe0 st1"
      using has False by simp
    then show ?thesis
      using Cons.IH[of req "nic0 @ [?k]" uwe0 st1] has False by simp
  next
    case True
    obtain out st2 where gen:
      "generateWithCacheKey env cfg (item_reqSimulator it ?req1) ?k Generate st1 = (out, st2)"
      by (cases "generateWithCacheKey env cfg (item_reqSimulator it ?req1) ?k Generate st1")
    have np: "out \<noteq> Pending"
      using generate_settles[OF r c, of "item_reqSimulator it ?req1" ?k Generate st1] gen by simp
    obtain uwe1 where step:
      "invalidateLoop env cfg (it # rest) req nic0 uwe0 st =
         invalidateLoop env cfg rest ?req1 nic0 uwe1 st2"
      using has True gen np by (cases out) (simp_all add: Let_def)
    have same: "?req1\<lparr>req_url := u\<rparr> = req\<lparr>req_url := u\<rparr>" for u
      by simp
    have "snd (invalidateLoop env cfg (it # rest) req nic0 uwe0 st) =
        snd (invalidateLoop env cfg rest ?req1 nic0 uwe1 st2)"
      by (simp only: step)
    also have "\<dots> =
        fold (\<lambda>it s.
                case cacheHas env cfg (item_cacheKey it) s of
                  (urlExists, s1) \<Rightarrow>
                    if urlExists then
                      snd (generateWithCacheKey env cfg
                             (item_reqSimulator it (req\<lparr>req_url := item_url it\<rparr>))
                             (item_cacheKey it) Generate s1)
                    else s1)
          rest st2"
      using Cons.IH[of ?req1 nic0 uwe1 st2] by (simp only: same)
    finally show ?thesis
      using has True gen by (simp del: invalidateLoop.simps)
  qed
qed

text \<open>
  C8. For every list of URLs and every configured list of variants,
  \<open>getVariantUrlsToInvalidate\<close> yields, URL by URL in the order given, the default item
  followed by one item per variant in the order of declaration:
  \<open>|urls| * (1 + |variants|)\<close> items. With a renderer and a compressor that settle, the
  loop of \<open>invalidate\<close> over these items runs to its end, checks the store once per item,
  in order, and \<open>notInCache\<close> holds, in order, the keys whose check did not give
  \<open>true\<close>. The state the loop leaves is the one reached by taking the items in order,
  each once: the store is asked for the item's key and, when the key is there, the request
  with the item's URL is passed to the item's simulator and \<open>generateWithCacheKey\<close> is run
  in mode \<open>generate\<close> for the item's key, from the state the check left.
\<close>

theorem variant_expansion:
  assumes "\<forall>r. renderUrl env r \<noteq> Pending"
    and "\<forall>c s. compressHtml cfg = Some c \<longrightarrow> c s \<noteq> Pending"
  shows
    "getVariantUrlsToInvalidate cfg urls =
       concat (map (\<lambda>u. defaultItem u # map (variantItem cfg u) (configuredVariants cfg)) urls)
     \<and> length (getVariantUrlsToInvalidate cfg urls) =
         length urls * (1 + length (configuredVariants cfg))
     \<and> (\<exists>notInCache urlWithErrors st'.
          invalidateLoop env cfg (getVariantUrlsToInvalidate cfg urls) req [] [] st =
            (Resolved (notInCache, urlWithErrors), st') \<and>
          map fst (hasChecks (added st st')) =
            map item_cacheKey (getVariantUrlsToInvalidate cfg urls) \<and>
          notInCache = map fst (filter (\<lambda>c. \<not> snd c) (hasChecks (added st st'))) \<and>
          st' =
            fold (\<lambda>it s.
                    case cacheHas env cfg (item_cacheKey it) s of
                      (urlExists, s1) \<Rightarrow>
                        if urlExists then
                          snd (generateWithCacheKey env cfg
                                 (item_reqSimulator it (req\<lparr>req_url := item_url it\<rparr>))
                                 (item_cacheKey it) Generate s1)
                        else s1)
              (getVariantUrlsToInvalidate cfg urls) st)"
proof -
  obtain nic uwe st' evs where loop:
    "invalidateLoop env cfg (getVariantUrlsToInvalidate cfg urls) req [] [] st = (Resolved (nic, uwe), st')"
    "trace st' = trace st @ evs"
    "map fst (hasChecks evs) = map item_cacheKey (getVariantUrlsToInvalidate cfg urls)"
    "nic = [] @ map fst (filter (\<lambda>c. \<not> snd c) (hasChecks evs))"
    using invalidateLoop_checks[OF assms, of "getVariantUrlsToInvalidate cfg urls" req "[]" "[]" st]
    by blast
  have "added st st' = evs" using loop(2) by (simp add: added_def)
  moreover have "st' =
      fold (\<lambda>it s.
              case cacheHas env cfg (item_cacheKey it) s of
                (urlExists, s1) \<Rightarrow>
                  if urlExists then
                    snd (generateWithCacheKey env cfg
                           (item_reqSimulator it (req\<lparr>req_url := item_url it\<rparr>))
                           (item_cacheKey it) Generate s1)
                  else s1)
        (getVariantUrlsToInvalidate cfg urls) st"
    using invalidateLoop_attempts[OF assms, of "getVariantUrlsToInvalidate cfg urls" req "[]" "[]" st]
      loop(1) by simp
  ultimately have "\<exists>notInCache urlWithErrors st'.
          invalidateLoop env cfg (getVariantUrlsToInvalidate cfg urls) req [] [] st =
            (Resolved (notInCache, urlWithErrors), st') \<and>
          map fst (hasChecks (added st st')) =
            map item_cacheKey (getVariantUrlsToInvalidate cfg urls) \<and>
          notInCache = map fst (filter (\<lambda>c. \<not> snd c) (hasChecks (added st st'))) \<and>
          st' =
            fold (\<lambda>it s.
                    case cacheHas env cfg (item_cacheKey it) s of
                      (urlExists, s1) \<Rightarrow>
                        if urlExists then
                          snd (generateWithCacheKey env cfg
                                 (item_reqSimulator it (req\<lparr>req_url := item_url it\<rparr>))
                                 (item_cacheKey it) Generate s1)
                        else s1)
              (getVariantUrlsToInvalidate cfg urls) st"
    using loop by auto
  then show ?thesis
    using getVariantUrlsToInvalidate_eq[of cfg urls]
      length_expansion[of cfg "configuredVariants cfg" urls]
    by simp
qed

text \<open>
  \<open>/a\<close> and \<open>/b\<close> with two variants: six items; only \<open>/b\<close> is in the store, it is
  rebuilt once and the other five keys are reported under \<open>notInCache\<close>.
\<close>

lemmas invalidate_defs =
  invalidate_def cacheHas_def getVariantUrlsToInvalidate_eq defaultItem_def variantItem_def
  configuredVariants_def getCacheKey_def defaultVariant_def

theorem variant_expansion_witness:
  "length (getVariantUrlsToInvalidate (sampleConfig\<lparr>variants := Some sampleVariants\<rparr>) [''/a'', ''/b'']) = 6
   \<and> map item_cacheKey
        (getVariantUrlsToInvalidate (sampleConfig\<lparr>variants := Some sampleVariants\<rparr>) [''/a'', ''/b'']) =
       [''/a'', ''/a<variantId:mobile>'', ''/a<variantId:member>'',
        ''/b'', ''/b<variantId:mobile>'', ''/b<variantId:member>'']
   \<and> fst (invalidateLoop (sampleEnv (Resolved ''<html/>'') (Number 60))
          (sampleConfig\<lparr>variants := Some sampleVariants\<rparr>)
          (getVariantUrlsToInvalidate (sampleConfig\<lparr>variants := Some sampleVariants\<rparr>) [''/a'', ''/b''])
          (invalidationRequest (TokenString ''secret'') (Some [''/a'', ''/b''])) [] []
          (initial [(''/b'', sampleEntry ''<cached/>'' 60 0)])) =
       Resolved
         ([''/a'', ''/a<variantId:mobile>'', ''/a<variantId:member>'',
           ''/b<variantId:mobile>'', ''/b<variantId:member>''], [])
   \<and> added (initial [(''/b'', sampleEntry ''<cached/>'' 60 0)])
        (snd (invalidateLoop (sampleEnv (Resolved ''<html/>'') (Number 60))
          (sampleConfig\<lparr>variants := Some sampleVariants\<rparr>)
          (getVariantUrlsToInvalidate (sampleConfig\<lparr>variants := Some sampleVariants\<rparr>) [''/a'', ''/b''])
          (invalidationRequest (TokenString ''secret'') (Some [''/a'', ''/b''])) [] []
          (initial [(''/b'', sampleEntry ''<cached/>'' 60 0)]))) =
       [CacheHas ''/a'' False, CacheHas ''/a<variantId:mobile>'' False,
        CacheHas ''/a<variantId:member>'' False,
        CacheHas ''/b'' True, RenderUrl ''/b'',
        CacheAdd ''/b'' (HtmlString ''<html/>'') \<lparr>opt_revalidate = Number 60, opt_buildId = None\<rparr>,
        CacheHas ''/b<variantId:mobile>'' False, CacheHas ''/b<variantId:member>'' False]"
proof -
  let ?cfg = "sampleConfig\<lparr>variants := Some sampleVariants\<rparr>"
  let ?env = "sampleEnv (Resolved ''<html/>'') (Number 60)"
  have r: "\<forall>r. renderUrl ?env r \<noteq> Pending"
    and c: "\<forall>c s. compressHtml ?cfg = Some c \<longrightarrow> c s \<noteq> Pending"
    by (simp_all add: sample_defs)
  have n: "length [''/a'', ''/b''] * (1 + length (configuredVariants ?cfg)) = 6"
    by (simp add: configuredVariants_def sample_defs)
  have keys: "map item_cacheKey (getVariantUrlsToInvalidate ?cfg [''/a'', ''/b'']) =
       [''/a'', ''/a<variantId:mobile>'', ''/a<variantId:member>'',
        ''/b'', ''/b<variantId:mobile>'', ''/b<variantId:member>'']"
    by (simp add: invalidate_defs sample_defs)
  have run: "fst (invalidateLoop ?env ?cfg (getVariantUrlsToInvalidate ?cfg [''/a'', ''/b''])
          (invalidationRequest (TokenString ''secret'') (Some [''/a'', ''/b''])) [] []
          (initial [(''/b'', sampleEntry ''<cached/>'' 60 0)])) =
       Resolved
         ([''/a'', ''/a<variantId:mobile>'', ''/a<variantId:member>'',
           ''/b<variantId:mobile>'', ''/b<variantId:member>''], [])"
    by (simp add: invalidate_defs gwck_defs sample_defs awaitWithTimeout_eq Let_def)
  have events: "added (initial [(''/b'', sampleEntry ''<cached/>'' 60 0)])
        (snd (invalidateLoop ?env ?cfg (getVariantUrlsToInvalidate ?cfg [''/a'', ''/b''])
          (invalidationRequest (TokenString ''secret'') (Some [''/a'', ''/b''])) [] []
          (initial [(''/b'', sampleEntry ''<cached/>'' 60 0)]))) =
       [CacheHas ''/a'' False, CacheHas ''/a<variantId:mobile>'' False,
        CacheHas ''/a<variantId:member>'' False,
        CacheHas ''/b'' True, RenderUrl ''/b'',
        CacheAdd ''/b'' (HtmlString ''<html/>'') \<lparr>opt_revalidate = Number 60, opt_buildId = None\<rparr>,
        CacheHas ''/b<variantId:mobile>'' False, CacheHas ''/b<variantId:member>'' False]"
    by (simp add: invalidate_defs gwck_defs sample_defs awaitWithTimeout_eq added_def Let_def)
  show ?thesis
    using variant_expansion[OF r c, of "[''/a'', ''/b'']"
        "invalidationRequest (TokenString ''secret'') (Some [''/a'', ''/b''])"
        "initial [(''/b'', sampleEntry ''<cached/>'' 60 0)]"]
      n keys run events
    by simp
qed

text \<open>
  C7. When the token of the request differs from the configured secret, \<open>invalidate\<close>
  answers with the error \<open>Your secret token is wrong!!!\<close> and does nothing else. When the
  token is right and \<open>urlsToInvalidate\<close> is missing or empty, it answers with the error
  that asks for \<open>urlsToInvalidate\<close> and does nothing else. In both cases no operation of
  the store and no render is performed, and the store, the registry and the running
  regenerations are unchanged.
\<close>

theorem invalidation_fails_closed:
  "(tokenDiffers (body_token req) (invalidateSecretToken cfg) \<longrightarrow>
      invalidate env cfg req st =
        (Resolved (), emit (Json (JsonError ''Your secret token is wrong!!!'')) st))
   \<and> (\<not> tokenDiffers (body_token req) (invalidateSecretToken cfg) \<and>
       (body_urlsToInvalidate req = None \<or> body_urlsToInvalidate req = Some []) \<longrightarrow>
        invalidate env cfg req st =
          (Resolved (),
           emit (Json (JsonError ''Please add `urlsToInvalidate` in the payload!'')) st))
   \<and> (tokenDiffers (body_token req) (invalidateSecretToken cfg) \<or>
       body_urlsToInvalidate req = None \<or> body_urlsToInvalidate req = Some [] \<longrightarrow>
        filter is_store_op (added st (snd (invalidate env cfg req st))) = [] \<and>
        filter is_render (added st (snd (invalidate env cfg req st))) = [] \<and>
        store (snd (invalidate env cfg req st)) = store st \<and>
        urlsOnHold (snd (invalidate env cfg req st)) = urlsOnHold st \<and>
        running (snd (invalidate env cfg req st)) = running st)"
  by (auto simp: invalidate_def emit_def added_def)

text \<open>A guessed token, a missing token, and the right token with an empty list.\<close>

theorem invalidation_fails_closed_witness:
  "tokenDiffers (TokenString ''guess'') (invalidateSecretToken sampleConfig)
   \<and> invalidate (sampleEnv (Resolved ''<html/>'') (Number 60)) sampleConfig
        (invalidationRequest (TokenString ''guess'') (Some [''/a'']))
        (initial [(''/a'', sampleEntry ''<cached/>'' 60 0)]) =
       (Resolved (),
        emit (Json (JsonError ''Your secret token is wrong!!!''))
          (initial [(''/a'', sampleEntry ''<cached/>'' 60 0)]))
   \<and> tokenDiffers TokenMissing (invalidateSecretToken sampleConfig)
   \<and> \<not> tokenDiffers (TokenString ''secret'') (invalidateSecretToken sampleConfig)
   \<and> invalidate (sampleEnv (Resolved ''<html/>'') (Number 60)) sampleConfig
        (invalidationRequest (TokenString ''secret'') (Some []))
        (initial [(''/a'', sampleEntry ''<cached/>'' 60 0)]) =
       (Resolved (),
        emit (Json (JsonError ''Please add `urlsToInvalidate` in the payload!''))
          (initial [(''/a'', sampleEntry ''<cached/>'' 60 0)]))
   \<and> filter is_store_op
        (added (initial [(''/a'', sampleEntry ''<cached/>'' 60 0)])
           (snd (invalidate (sampleEnv (Resolved ''<html/>'') (Number 60)) sampleConfig
                   (invalidationRequest (TokenString ''guess'') (Some [''/a'']))
                   (initial [(''/a'', sampleEntry ''<cached/>'' 60 0)])))) = []"
proof -
  have t: "tokenDiffers (TokenString ''guess'') (invalidateSecretToken sampleConfig)"
    "tokenDiffers TokenMissing (invalidateSecretToken sampleConfig)"
    "\<not> tokenDiffers (TokenString ''secret'') (invalidateSecretToken sampleConfig)"
    by (simp_all add: sampleConfig_def)
  have b: "body_token (invalidationRequest tok urls) = tok"
    "body_urlsToInvalidate (invalidationRequest tok urls) = urls" for tok urls
    by (simp_all add: invalidationRequest_def)
  show ?thesis
    using invalidation_fails_closed[of "invalidationRequest (TokenString ''guess'') (Some [''/a''])"
        sampleConfig "sampleEnv (Resolved ''<html/>'') (Number 60)"
        "initial [(''/a'', sampleEntry ''<cached/>'' 60 0)]"]
      invalidation_fails_closed[of "invalidationRequest (TokenString ''secret'') (Some [])"
        sampleConfig "sampleEnv (Resolved ''<html/>'') (Number 60)"
        "initial [(''/a'', sampleEntry ''<cached/>'' 60 0)]"]
      t b
    by (simp add: added_def emit_def)
qed

text \<open>
  C6. Under a configured generator that prefixes \<open>page:\<close>, the default item for \<open>/a\<close>
  has the key \<open>/a\<close>, while the generator gives \<open>page:/a\<close> for \<open>/a\<close> without a
  variant. \<open>render\<close> stores the page under \<open>page:/a\<close>; the invalidation of \<open>/a\<close> that
  follows looks for \<open>/a\<close>, reports it under \<open>notInCache\<close> and regenerates nothing.
\<close>

theorem default_item_key_is_raw_url:
  "map item_cacheKey (getVariantUrlsToInvalidate prefixConfig [''/a'']) = [''/a'']
   \<and> getCacheKey prefixConfig ''/a'' (allowedQueryParams prefixConfig) None = ''page:/a''
   \<and> map fst (store (snd (render (sampleEnv (Resolved ''<html/>'') (Number 60)) prefixConfig
        (sampleRequest ''/a'') (initial [])))) = [''page:/a'']
   \<and> added (snd (render (sampleEnv (Resolved ''<html/>'') (Number 60)) prefixConfig
          (sampleRequest ''/a'') (initial [])))
        (snd (invalidate (sampleEnv (Resolved ''<html/>'') (Number 60)) prefixConfig
               (invalidationRequest (TokenString ''secret'') (Some [''/a'']))
               (snd (render (sampleEnv (Resolved ''<html/>'') (Number 60)) prefixConfig
                  (sampleRequest ''/a'') (initial []))))) =
       [CacheHas ''/a'' False, Json (JsonSuccess [''/a''] [] [])]"
  by (simp add: invalidate_defs render_def generate_def gwck_defs sample_defs awaitWithTimeout_eq
      added_def Let_def)

end
